theory Spec2Isabelle
  imports Main "HOL-Library.Word" "HOL-Library.Sublist"
begin

section \<open>Strings and tag rendering\<close>

text \<open>
  Go strings are byte sequences; they are modelled as \<open>string\<close> (a list of bytes).

  \<open>ReplaceAll s old new\<close> is the library call \<^verbatim>\<open>strings.ReplaceAll(s, old, new)\<close>:
  every non-overlapping instance of \<open>old\<close> in \<open>s\<close>, scanning from the left, is replaced
  by \<open>new\<close>. The program only calls it with the one-byte pattern \<^verbatim>\<open>" "\<close>. For the empty
  pattern the library inserts \<open>new\<close> at every rune boundary; the model does so at every
  byte, which is the same for ASCII text and is never reached from the program.
\<close>

function ReplaceAll :: "string \<Rightarrow> string \<Rightarrow> string \<Rightarrow> string" where
  "ReplaceAll s old new =
     (if old = [] then new @ concat (map (\<lambda>c. c # new) s)
      else if s = [] then []
      else if prefix old s then new @ ReplaceAll (drop (length old) s) old new
      else hd s # ReplaceAll (tl s) old new)"
  by pat_completeness auto
termination
  by (relation "measure (\<lambda>(s, old, new). length s)") auto

declare ReplaceAll.simps [simp del]

text \<open>
  \<^verbatim>\<open>
  func prepareTags(tags []string) string {
      b := strings.Builder{}
      for _, t := range tags {
          b.WriteRune('#')
          b.WriteString(strings.ReplaceAll(t, " ", ""))
          b.WriteRune(' ')
      }
      return b.String()
  }
  \<close>
  The builder is the accumulated string \<open>b\<close>; each of the three writes appends to it.
\<close>

definition WriteRune :: "string \<Rightarrow> char \<Rightarrow> string" where
  "WriteRune b c = b @ [c]"

definition WriteString :: "string \<Rightarrow> string \<Rightarrow> string" where
  "WriteString b s = b @ s"

fun prepareTags_loop :: "string \<Rightarrow> string list \<Rightarrow> string" where
  "prepareTags_loop b [] = b"
| "prepareTags_loop b (t # ts) =
     prepareTags_loop
       (WriteRune (WriteString (WriteRune b (CHR ''#'')) (ReplaceAll t '' '' '''')) (CHR '' ''))
       ts"

definition prepareTags :: "string list \<Rightarrow> string" where
  "prepareTags tags = prepareTags_loop [] tags"

text \<open>
  The rendering of one tag in the words of the specification: a \<open>#\<close>, the tag without
  its space characters, one trailing space.
\<close>

definition strip_spaces :: "string \<Rightarrow> string" where
  "strip_spaces t = filter (\<lambda>c. c \<noteq> CHR '' '') t"

definition render_tag :: "string \<Rightarrow> string" where
  "render_tag t = CHR ''#'' # strip_spaces t @ [CHR '' '']"

definition render_tags_spec :: "string list \<Rightarrow> string" where
  "render_tags_spec ts = concat (map render_tag ts)"

section \<open>Severity levels\<close>

text \<open>
  \<^verbatim>\<open>zapcore.Level\<close> is an \<^verbatim>\<open>int8\<close>: an 8-bit word, compared as a signed number.
  \<^verbatim>\<open>func (l Level) Enabled(lvl Level) bool { return lvl >= l }\<close>
\<close>

type_synonym Level = "8 word"

definition DebugLevel :: Level where "DebugLevel = - 1"
definition InfoLevel :: Level where "InfoLevel = 0"
definition WarnLevel :: Level where "WarnLevel = 1"
definition ErrorLevel :: Level where "ErrorLevel = 2"
definition DPanicLevel :: Level where "DPanicLevel = 3"
definition PanicLevel :: Level where "PanicLevel = 4"
definition FatalLevel :: Level where "FatalLevel = 5"

definition Level_Enabled :: "Level \<Rightarrow> Level \<Rightarrow> bool" where
  "Level_Enabled l lvl = (sint l \<le> sint lvl)"

text \<open>Decimal rendering of numbers, for \<^verbatim>\<open>%d\<close> in the name of an unnamed level.\<close>

definition digit :: "nat \<Rightarrow> char" where
  "digit n = char_of (48 + n)"

function show_nat :: "nat \<Rightarrow> string" where
  "show_nat n = (if n < 10 then [digit n] else show_nat (n div 10) @ [digit (n mod 10)])"
  by pat_completeness auto
termination
  by (relation "measure (\<lambda>n. n)") auto

declare show_nat.simps [simp del]

definition show_int :: "int \<Rightarrow> string" where
  "show_int i = (if i < 0 then CHR ''-'' # show_nat (nat (- i)) else show_nat (nat i))"

definition Level_String :: "Level \<Rightarrow> string" where
  "Level_String l =
     (if l = DebugLevel then ''debug''
      else if l = InfoLevel then ''info''
      else if l = WarnLevel then ''warn''
      else if l = ErrorLevel then ''error''
      else if l = DPanicLevel then ''dpanic''
      else if l = PanicLevel then ''panic''
      else if l = FatalLevel then ''fatal''
      else ''Level('' @ show_int (sint l) @ '')'')"

section \<open>Values, fields and the logging library\<close>

text \<open>
  The values of \<^verbatim>\<open>interface{}\<close> arguments (keys, values, positional arguments, the
  payload of a change notification). \<open>ATime\<close> is the reading of the clock that the
  encoder puts under the time key; \<open>AError\<close> is an \<^verbatim>\<open>error\<close> with its message;
  \<open>AOther\<close> stands for a value of any other dynamic type.
\<close>

datatype any = AString string | AInt int | ABool bool | ANil | AError string | ATime | AOther nat

text \<open>The type assertion \<^verbatim>\<open>x.(string)\<close>.\<close>

fun as_string :: "any \<Rightarrow> string option" where
  "as_string (AString s) = Some s"
| "as_string _ = None"

type_synonym Field = "string \<times> any"

definition zap_String :: "string \<Rightarrow> string \<Rightarrow> Field" where
  "zap_String key val = (key, AString val)"

definition zap_Any :: "string \<Rightarrow> any \<Rightarrow> Field" where
  "zap_Any key val = (key, val)"

section \<open>Settings and the library functions outside the repository\<close>

text \<open>
  \<^verbatim>\<open>
  type Config struct {
      LogLevel   string `envconfig:"default=info"`
      MessageKey string `envconfig:"default=message"`
      LevelKey   string `envconfig:"default=severity"`
      TimeKey    string `envconfig:"default=timestamp"`
      AppName    string `envconfig:"default=app"`
      Host       string `envconfig:"default=localhost"`
      Version    string `envconfig:"default=0.0.0"`
      DevMode    bool   `envconfig:"default=false"`
  }
  \<close>
\<close>

record Config =
  LogLevel :: string
  MessageKey :: string
  LevelKey :: string
  TimeKey :: string
  AppName :: string
  Host :: string
  Version :: string
  DevMode :: bool

text \<open>
  Four functions the program calls belong to libraries whose code is outside the
  repository; they are parameters of the model: the formatting functions
  \<^verbatim>\<open>fmt.Sprint\<close> and \<^verbatim>\<open>fmt.Sprintf\<close>, the level parser
  \<^verbatim>\<open>AtomicLevel.UnmarshalText\<close> (the level, or an error message for a token it does
  not recognize) and the configuration loader \<^verbatim>\<open>envconfig.InitWithPrefix\<close> (the
  loaded settings, or an error message).
\<close>

record extern =
  Sprint :: "any list \<Rightarrow> string"
  Sprintf :: "string \<Rightarrow> any list \<Rightarrow> string"
  UnmarshalText :: "string \<Rightarrow> string + Level"
  InitWithPrefix :: "string \<Rightarrow> string + Config"

text \<open>
  The part of the zap library the program drives. An encoder is the encoder
  configuration the factory fills in, of one of two kinds; a core is either the
  library's writer core (a level enabler, an encoder, the fields attached so far; it
  writes to the standard output) or this repository's \<open>coreWithLevel\<close> around another
  core. A written record is kept as the ordered list of its fields instead of its bytes.
\<close>

datatype LevelEncoder = LowercaseLevelEncoder | LowercaseColorLevelEncoder

record EncoderConfig =
  EncTimeKey :: string
  EncLevelKey :: string
  EncNameKey :: string
  EncCallerKey :: string
  EncMessageKey :: string
  EncStacktraceKey :: string
  EncodeLevel :: LevelEncoder

datatype Encoder = JSONEncoder EncoderConfig | ConsoleEncoder EncoderConfig

text \<open>
  A \<^verbatim>\<open>zapcore.LevelEnabler\<close> is an interface: an atomic level (the program never
  changes one after it is made) or any other predicate on levels.
\<close>

datatype LevelEnabler = AtomicLevel Level | LevelEnablerFunc "Level \<Rightarrow> bool"

fun LevelEnabler_Enabled :: "LevelEnabler \<Rightarrow> Level \<Rightarrow> bool" where
  "LevelEnabler_Enabled (AtomicLevel l) lvl = Level_Enabled l lvl"
| "LevelEnabler_Enabled (LevelEnablerFunc f) lvl = f lvl"

datatype Core = ioCore LevelEnabler Encoder "Field list" | coreWithLevel Core Level

record Entry =
  Level :: Level
  Message :: string

text \<open>
  A written record: the fields of a JSON line in order, or a console line (the leading
  columns, then the fields).
\<close>

datatype Line = JSONLine "Field list" | ConsoleLine "any list" "Field list"

definition colorize :: "Level \<Rightarrow> string \<Rightarrow> string" where
  "colorize l s =
     (let code = (if l = DebugLevel then 35 else if l = InfoLevel then 34
                  else if l = WarnLevel then 33 else 31)
      in [char_of (27::nat)] @ ''['' @ show_nat code @ ''m'' @ s @ [char_of (27::nat)] @ ''[0m'')"

fun encode_level :: "LevelEncoder \<Rightarrow> Level \<Rightarrow> any" where
  "encode_level LowercaseLevelEncoder l = AString (Level_String l)"
| "encode_level LowercaseColorLevelEncoder l = AString (colorize l (Level_String l))"

text \<open>
  The JSON encoder puts the level, the time and the message first, each under its key
  and only when the key is not empty, then the attached fields, then the fields of the
  call. The console encoder prints the time, the level and the message, under the same
  conditions but without their keys, and then the fields. Loggers built by this program
  carry no logger name, caller or stack trace, so those three keys never show.
\<close>

definition entry_head :: "EncoderConfig \<Rightarrow> Entry \<Rightarrow> Field list" where
  "entry_head c ent =
     (if EncLevelKey c \<noteq> [] then [(EncLevelKey c, encode_level (EncodeLevel c) (Level ent))] else [])
     @ (if EncTimeKey c \<noteq> [] then [(EncTimeKey c, ATime)] else [])
     @ (if EncMessageKey c \<noteq> [] then [(EncMessageKey c, AString (Message ent))] else [])"

fun EncodeEntry :: "Encoder \<Rightarrow> Entry \<Rightarrow> Field list \<Rightarrow> Line" where
  "EncodeEntry (JSONEncoder c) ent flds = JSONLine (entry_head c ent @ flds)"
| "EncodeEntry (ConsoleEncoder c) ent flds =
     ConsoleLine
       ((if EncTimeKey c \<noteq> [] then [ATime] else [])
        @ (if EncLevelKey c \<noteq> [] then [encode_level (EncodeLevel c) (Level ent)] else [])
        @ (if EncMessageKey c \<noteq> [] then [AString (Message ent)] else []))
       flds"

text \<open>
  The methods of a core. For \<open>ioCore\<close> they are the library's; for \<open>coreWithLevel\<close>:
  \<^verbatim>\<open>
  func (c *coreWithLevel) Enabled(l zapcore.Level) bool { return c.level.Enabled(l) }

  func (c *coreWithLevel) Check(ent zapcore.Entry, ce *zapcore.CheckedEntry) *zapcore.CheckedEntry {
      if c.Enabled(ent.Level) { return ce.AddCore(ent, c) }
      return ce
  }

  func (c *coreWithLevel) With(fields []zapcore.Field) zapcore.Core {
      return &coreWithLevel{c.Core.With(fields), c.level}
  }
  \<close>
  \<open>Write\<close> is not redefined: the struct embeds the wrapped core, whose \<open>Write\<close> it
  inherits. A checked entry is the list of the cores that accepted the entry.
\<close>

fun Core_Enabled :: "Core \<Rightarrow> Level \<Rightarrow> bool" where
  "Core_Enabled (ioCore enab enc fs) l = LevelEnabler_Enabled enab l"
| "Core_Enabled (coreWithLevel c level) l = Level_Enabled level l"

fun Core_With :: "Core \<Rightarrow> Field list \<Rightarrow> Core" where
  "Core_With (ioCore enab enc fs) flds = ioCore enab enc (fs @ flds)"
| "Core_With (coreWithLevel c level) flds = coreWithLevel (Core_With c flds) level"

definition AddCore :: "Core list \<Rightarrow> Entry \<Rightarrow> Core \<Rightarrow> Core list" where
  "AddCore ce ent c = ce @ [c]"

fun Core_Check :: "Core \<Rightarrow> Entry \<Rightarrow> Core list \<Rightarrow> Core list" where
  "Core_Check (ioCore enab enc fs) ent ce =
     (if Core_Enabled (ioCore enab enc fs) (Level ent) then AddCore ce ent (ioCore enab enc fs) else ce)"
| "Core_Check (coreWithLevel c level) ent ce =
     (if Core_Enabled (coreWithLevel c level) (Level ent) then AddCore ce ent (coreWithLevel c level)
      else ce)"

fun Core_Write :: "Core \<Rightarrow> Entry \<Rightarrow> Field list \<Rightarrow> Line" where
  "Core_Write (ioCore enab enc fs) ent flds = EncodeEntry enc ent (fs @ flds)"
| "Core_Write (coreWithLevel c level) ent flds = Core_Write c ent flds"

text \<open>The fields attached to the writer at the bottom of a core.\<close>

fun Core_fields :: "Core \<Rightarrow> Field list" where
  "Core_fields (ioCore enab enc fs) = fs"
| "Core_fields (coreWithLevel c level) = Core_fields c"

text \<open>
  A logger holds its core and the sink for the library's own errors. The options the
  program knows are \<^verbatim>\<open>zap.ErrorOutput(sink)\<close> and this repository's
  \<^verbatim>\<open>
  func WithLevel(lvl zapcore.Level) zap.Option {
      return zap.WrapCore(func(core zapcore.Core) zapcore.Core {
          return &coreWithLevel{core, lvl}
      })
  }
  \<close>
  A sugared logger is the same logger behind another interface.
\<close>

datatype WriteSyncer = Stdout | Stderr

record zap_Logger =
  core :: Core
  errorOutput :: WriteSyncer

type_synonym SugaredLogger = zap_Logger

datatype Option = ErrorOutput WriteSyncer | WithLevel Level

fun apply_Option :: "zap_Logger \<Rightarrow> Option \<Rightarrow> zap_Logger" where
  "apply_Option log (ErrorOutput sink) = log\<lparr>errorOutput := sink\<rparr>"
| "apply_Option log (WithLevel lvl) = log\<lparr>core := coreWithLevel (core log) lvl\<rparr>"

definition WithOptions :: "zap_Logger \<Rightarrow> Option list \<Rightarrow> zap_Logger" where
  "WithOptions log opts = foldl apply_Option log opts"

definition zap_New :: "Core \<Rightarrow> Option list \<Rightarrow> zap_Logger" where
  "zap_New c options = WithOptions \<lparr>core = c, errorOutput = Stderr\<rparr> options"

definition NewCore :: "Encoder \<Rightarrow> WriteSyncer \<Rightarrow> LevelEnabler \<Rightarrow> Core" where
  "NewCore enc ws enab = ioCore enab enc []"

definition Logger_With :: "zap_Logger \<Rightarrow> Field list \<Rightarrow> zap_Logger" where
  "Logger_With log flds = (if flds = [] then log else log\<lparr>core := Core_With (core log) flds\<rparr>)"

definition Sugar :: "zap_Logger \<Rightarrow> SugaredLogger" where
  "Sugar log = log"

definition Desugar :: "SugaredLogger \<Rightarrow> zap_Logger" where
  "Desugar s = s"

section \<open>Slices of strings and the store of their arrays\<close>

text \<open>
  A Go slice is a view (array, offset, length, capacity) of a backing array, and two
  slices may share one array. The store \<open>heap\<close> lists the backing arrays by address;
  the nil slice has no array. \<^verbatim>\<open>append(v, elems...)\<close> writes the new elements into the
  array of \<open>v\<close> when its capacity suffices, right after the elements of \<open>v\<close>, and
  otherwise copies \<open>v\<close> and the new elements into a new, larger array. How much larger
  is the runtime's choice: the parameter \<open>grow\<close> (old capacity, needed length) gives the
  new capacity, never taken below the needed length.
\<close>

record Slice =
  ptr :: "nat option"
  off :: nat
  len :: nat
  cap :: nat

type_synonym heap = "string list list"

definition nil_slice :: Slice where
  "nil_slice = \<lparr>ptr = None, off = 0, len = 0, cap = 0\<rparr>"

definition slice_elems :: "heap \<Rightarrow> Slice \<Rightarrow> string list" where
  "slice_elems h s =
     (case ptr s of
        None \<Rightarrow> []
      | Some a \<Rightarrow> if a < length h then take (len s) (drop (off s) (h ! a)) else [])"

definition write_at :: "'a list \<Rightarrow> nat \<Rightarrow> 'a list \<Rightarrow> 'a list" where
  "write_at xs p ys = take p xs @ ys @ drop (p + length ys) xs"

definition go_append :: "(nat \<Rightarrow> nat \<Rightarrow> nat) \<Rightarrow> heap \<Rightarrow> Slice \<Rightarrow> Slice \<Rightarrow> heap \<times> Slice" where
  "go_append grow h v elems =
     (let es = slice_elems h elems;
          newLen = len v + length es
      in if newLen \<le> cap v then
           (case ptr v of
              None \<Rightarrow> (h, v)
            | Some a \<Rightarrow> (h[a := write_at (h ! a) (off v + len v) es], v\<lparr>len := newLen\<rparr>))
         else
           (let newCap = max newLen (grow (cap v) newLen)
            in (h @ [slice_elems h v @ es @ replicate (newCap - newLen) []],
                \<lparr>ptr = Some (length h), off = 0, len = newLen, cap = newCap\<rparr>)))"

text \<open>
  A call \<^verbatim>\<open>f(ctx, "a", "b")\<close> of a variadic function passes a fresh slice of exactly
  the arguments, and the nil slice when there are none; a call \<^verbatim>\<open>f(ctx, s...)\<close> passes
  the caller's slice \<open>s\<close> itself.
\<close>

definition variadic :: "heap \<Rightarrow> string list \<Rightarrow> heap \<times> Slice" where
  "variadic h ts =
     (if ts = [] then (h, nil_slice)
      else (h @ [ts], \<lparr>ptr = Some (length h), off = 0, len = length ts, cap = length ts\<rparr>))"

text \<open>The runtime doubles the capacity of a small slice that must grow.\<close>

definition doubling :: "nat \<Rightarrow> nat \<Rightarrow> nat" where
  "doubling oldCap needed = (if 2 * oldCap < needed then needed else 2 * oldCap)"

section \<open>The process state and the registry\<close>

text \<open>
  \<^verbatim>\<open>*zap.SugaredLogger\<close> is a pointer: \<open>None\<close> is nil. The state of the process is the
  registry's variable \<open>global\<close>, the records written to the standard output, the store
  of string arrays, and whether \<^verbatim>\<open>os.Exit\<close> was called.
  \<^verbatim>\<open>
  // Logger returns current global logger.
  func Logger() *zap.SugaredLogger {
      globalGuard.RLock()
      defer globalGuard.RUnlock()
      return global
  }
  // SetLogger sets global used logger. This function is not thread-safe.
  func SetLogger(l *zap.SugaredLogger) {
      globalGuard.Lock()
      defer globalGuard.Unlock()
      global = l
  }
  \<close>
  In a sequential run the lock operations change nothing; they are the subject of the
  section on the lock discipline below. A panic is an error value: \<open>NilPointerDereference\<close>
  for a method called on a nil logger, \<open>LoggedPanic\<close> for the panic the library raises
  after an entry at the panic level.
\<close>

record world =
  global :: "SugaredLogger option"
  stdout :: "Line list"
  heap :: heap
  exited :: bool

datatype error = NilPointerDereference | LoggedPanic

definition Logger :: "world \<Rightarrow> SugaredLogger option" where
  "Logger w = global w"

definition SetLogger :: "world \<Rightarrow> SugaredLogger option \<Rightarrow> world" where
  "SetLogger w l = w\<lparr>global := l\<rparr>"

section \<open>Writing through a logger\<close>

text \<open>
  The library's write path. \<open>Logger_log\<close> is \<^verbatim>\<open>Logger.Check\<close> followed by
  \<^verbatim>\<open>CheckedEntry.Write\<close>: the core checks the entry, every core that accepted it
  writes it, and then a fatal entry exits the process and a panic entry panics, whether
  or not it was written. \<open>sweetenFields\<close> turns a loosely typed key-value list into
  fields: a pair with a string key becomes a field, a pair with another key and a
  trailing single element are ignored. (The library also reports ignored arguments in a
  record of its own; that record is not part of this model, so statements about written
  records are made for well-formed lists.)
\<close>

definition Logger_log :: "zap_Logger \<Rightarrow> Level \<Rightarrow> string \<Rightarrow> Field list \<Rightarrow> world \<Rightarrow> error + world" where
  "Logger_log log lvl msg flds w =
     (let ent = \<lparr>Level = lvl, Message = msg\<rparr>;
          ce = Core_Check (core log) ent [];
          w' = w\<lparr>stdout := stdout w @ map (\<lambda>c. Core_Write c ent flds) ce\<rparr>
      in if lvl = PanicLevel then Inl LoggedPanic
         else if lvl = FatalLevel then Inr (w'\<lparr>exited := True\<rparr>)
         else Inr w')"

fun sweetenFields :: "any list \<Rightarrow> Field list" where
  "sweetenFields [] = []"
| "sweetenFields [x] = []"
| "sweetenFields (key # val # rest) =
     (case as_string key of
        Some keyStr \<Rightarrow> zap_Any keyStr val # sweetenFields rest
      | None \<Rightarrow> sweetenFields rest)"

text \<open>
  \<open>getMessage\<close> is the library's message of a call with positional arguments
  (\<^verbatim>\<open>Info(args...)\<close>, empty template) or with a template
  (\<^verbatim>\<open>Infof(template, args...)\<close>). \<open>Sugared_log\<close> is \<^verbatim>\<open>SugaredLogger.log\<close>: a nil
  receiver panics; the call returns at once when the level is below \<open>dpanic\<close> and not
  enabled; otherwise the message and the fields go to \<open>Logger_log\<close>.
\<close>

definition getMessage :: "extern \<Rightarrow> string \<Rightarrow> any list \<Rightarrow> string" where
  "getMessage X template fmtArgs =
     (if fmtArgs = [] then template
      else if template \<noteq> [] then Sprintf X template fmtArgs
      else (case fmtArgs of [AString str] \<Rightarrow> str | _ \<Rightarrow> Sprint X fmtArgs))"

definition Sugared_log ::
  "extern \<Rightarrow> SugaredLogger option \<Rightarrow> Level \<Rightarrow> string \<Rightarrow> any list \<Rightarrow> any list \<Rightarrow> world \<Rightarrow> error + world" where
  "Sugared_log X p lvl template fmtArgs context w =
     (case p of
        None \<Rightarrow> Inl NilPointerDereference
      | Some s \<Rightarrow>
          if sint lvl < sint DPanicLevel \<and> \<not> Core_Enabled (core s) lvl then Inr w
          else Logger_log s lvl (getMessage X template fmtArgs) (sweetenFields context) w)"

text \<open>
  The three calling conventions of a sugared logger at a level: \<^verbatim>\<open>Info(args...)\<close>,
  \<^verbatim>\<open>Infof(template, args...)\<close> and \<^verbatim>\<open>Infow(msg, keysAndValues...)\<close>, and the same
  for the other levels.
\<close>

definition Sugared_print :: "extern \<Rightarrow> SugaredLogger option \<Rightarrow> Level \<Rightarrow> any list \<Rightarrow> world \<Rightarrow> error + world" where
  "Sugared_print X p lvl args w = Sugared_log X p lvl [] args [] w"

definition Sugared_printf ::
  "extern \<Rightarrow> SugaredLogger option \<Rightarrow> Level \<Rightarrow> string \<Rightarrow> any list \<Rightarrow> world \<Rightarrow> error + world" where
  "Sugared_printf X p lvl template args w = Sugared_log X p lvl template args [] w"

definition Sugared_printw ::
  "extern \<Rightarrow> SugaredLogger option \<Rightarrow> Level \<Rightarrow> string \<Rightarrow> any list \<Rightarrow> world \<Rightarrow> error + world" where
  "Sugared_printw X p lvl msg keysAndValues w = Sugared_log X p lvl msg [] keysAndValues w"

section \<open>Contexts\<close>

text \<open>
  A \<^verbatim>\<open>context.Context\<close> is an immutable chain of key/value nodes over the background
  context; \<^verbatim>\<open>ctx.Value(key)\<close> returns the value of the nearest node with that key. The
  two keys of this package are private to it, so under \<open>loggerContextKey\<close> there is
  always a logger pointer and under \<open>loggerContextTags\<close> always a slice of strings;
  other packages attach values under keys of their own.
  \<^verbatim>\<open>
  func ToContext(ctx context.Context, l *zap.SugaredLogger) context.Context {
      return context.WithValue(ctx, loggerContextKey, l)
  }
  func FromContext(ctx context.Context) *zap.SugaredLogger {
      l := global
      if logger, ok := ctx.Value(loggerContextKey).(*zap.SugaredLogger); ok {
          l = logger
      }
      return l
  }
  \<close>
\<close>

datatype ctxkey = loggerContextKey | loggerContextTags | otherKey nat

datatype ctxval = LoggerVal "SugaredLogger option" | TagsVal Slice | OtherVal any

datatype Context = Background | WithValue Context ctxkey ctxval

fun Value :: "Context \<Rightarrow> ctxkey \<Rightarrow> ctxval option" where
  "Value Background key = None"
| "Value (WithValue parent k v) key = (if k = key then Some v else Value parent key)"

text \<open>
  The type assertions \<^verbatim>\<open>x.(*zap.SugaredLogger)\<close> and \<^verbatim>\<open>x.([]string)\<close>: they succeed
  on a value of that type, a nil pointer and a nil slice included, and fail on a missing
  value.
\<close>

fun as_logger :: "ctxval option \<Rightarrow> SugaredLogger option option" where
  "as_logger (Some (LoggerVal l)) = Some l"
| "as_logger _ = None"

fun as_tags :: "ctxval option \<Rightarrow> Slice option" where
  "as_tags (Some (TagsVal s)) = Some s"
| "as_tags _ = None"

definition ToContext :: "Context \<Rightarrow> SugaredLogger option \<Rightarrow> Context" where
  "ToContext ctx l = WithValue ctx loggerContextKey (LoggerVal l)"

definition FromContext :: "world \<Rightarrow> Context \<Rightarrow> SugaredLogger option" where
  "FromContext w ctx =
     (let l = global w
      in case as_logger (Value ctx loggerContextKey) of
           Some logger \<Rightarrow> logger
         | None \<Rightarrow> l)"

text \<open>
  \<^verbatim>\<open>
  func ContextWithTags(ctx context.Context, tags ...string) context.Context {
      if v, ok := ctx.Value(loggerContextTags).([]string); ok {
          tags = append(v, tags...)
      }
      return context.WithValue(ctx, loggerContextTags, tags)
  }
  \<close>
  The argument \<open>tags\<close> is the slice the call passes; the function returns the new
  context and the store, which \<open>append\<close> may have written.
\<close>

definition ContextWithTags ::
  "(nat \<Rightarrow> nat \<Rightarrow> nat) \<Rightarrow> world \<Rightarrow> Context \<Rightarrow> Slice \<Rightarrow> world \<times> Context" where
  "ContextWithTags grow w ctx tags =
     (case as_tags (Value ctx loggerContextTags) of
        Some v \<Rightarrow>
          (let (h, tags') = go_append grow (heap w) v tags
           in (w\<lparr>heap := h\<rparr>, WithValue ctx loggerContextTags (TagsVal tags')))
      | None \<Rightarrow> (w, WithValue ctx loggerContextTags (TagsVal tags)))"

text \<open>The call \<^verbatim>\<open>ContextWithTags(ctx, "t1", ..., "tn")\<close> with the tags written out.\<close>

definition ContextWithTags_of ::
  "(nat \<Rightarrow> nat \<Rightarrow> nat) \<Rightarrow> world \<Rightarrow> Context \<Rightarrow> string list \<Rightarrow> world \<times> Context" where
  "ContextWithTags_of grow w ctx ts =
     (let (h, s) = variadic (heap w) ts in ContextWithTags grow (w\<lparr>heap := h\<rparr>) ctx s)"

text \<open>The tag list a context carries, as an emission reads it.\<close>

definition tags_of :: "world \<Rightarrow> Context \<Rightarrow> string list option" where
  "tags_of w ctx = map_option (slice_elems (heap w)) (as_tags (Value ctx loggerContextTags))"

text \<open>
  \<^verbatim>\<open>
  func ContextWithKV(ctx context.Context, kvs ...interface{}) context.Context {
      l := FromContext(ctx).Desugar()
      result := make([]zap.Field, 0, len(kvs)/2)
      for i := 0; i < len(kvs); i += 2 {
          if i == len(kvs)-1 {
              break
          }
          key, ok := kvs[i].(string)
          if !ok {
              l.Warn(fmt.Sprintf("invalid KVs key %v", key))
              continue
          }
          result = append(result, zap.Any(key, kvs[i+1]))
      }
      l.With(result...)
      return ToContext(ctx, l.With(result...).Sugar())
  }
  \<close>
  The loop walks the list two elements at a time, threading the fields gathered so far
  and the process state (the warnings written). After a failed assertion \<open>key\<close> is the
  empty string, which is what the warning formats. The first \<^verbatim>\<open>l.With\<close> builds a
  logger that is dropped.
\<close>

fun ContextWithKV_loop ::
  "extern \<Rightarrow> zap_Logger \<Rightarrow> any list \<Rightarrow> Field list \<Rightarrow> world \<Rightarrow> error + (Field list \<times> world)" where
  "ContextWithKV_loop X l [] result w = Inr (result, w)"
| "ContextWithKV_loop X l [x] result w = Inr (result, w)"
| "ContextWithKV_loop X l (k # v # rest) result w =
     (case as_string k of
        None \<Rightarrow>
          (case Logger_log l WarnLevel (Sprintf X ''invalid KVs key %v'' [AString []]) [] w of
             Inl e \<Rightarrow> Inl e
           | Inr w' \<Rightarrow> ContextWithKV_loop X l rest result w')
      | Some key \<Rightarrow> ContextWithKV_loop X l rest (result @ [zap_Any key v]) w)"

definition ContextWithKV :: "extern \<Rightarrow> world \<Rightarrow> Context \<Rightarrow> any list \<Rightarrow> error + (world \<times> Context)" where
  "ContextWithKV X w ctx kvs =
     (case FromContext w ctx of
        None \<Rightarrow> Inl NilPointerDereference
      | Some s \<Rightarrow>
          (let l = Desugar s
           in case ContextWithKV_loop X l kvs [] w of
                Inl e \<Rightarrow> Inl e
              | Inr (result, w') \<Rightarrow>
                  (let dropped = Logger_With l result
                   in Inr (w', ToContext ctx (Some (Sugar (Logger_With l result)))))))"

section \<open>Emission\<close>

text \<open>
  The fifteen emission functions are five copies, one per level, of three shapes; for
  the info level:
  \<^verbatim>\<open>
  func Info(ctx context.Context, args ...interface{}) {
      if tags, ok := ctx.Value(loggerContextTags).([]string); ok {
          InfoKV(ctx, fmt.Sprint(args...), tagsName, prepareTags(tags))
          return
      }
      FromContext(ctx).Info(args...)
  }
  func Infof(ctx context.Context, format string, args ...interface{}) {
      if tags, ok := ctx.Value(loggerContextTags).([]string); ok {
          InfoKV(ctx, fmt.Sprintf(format, args...), tagsName, prepareTags(tags))
          return
      }
      FromContext(ctx).Infof(format, args...)
  }
  func InfoKV(ctx context.Context, message string, kvs ...interface{}) {
      if tags, ok := ctx.Value(loggerContextTags).([]string); ok {
          kvs = append(kvs, tagsName, prepareTags(tags))
      }
      FromContext(ctx).Infow(message, kvs...)
  }
  \<close>
  \<open>emitKV\<close>, \<open>emit\<close> and \<open>emitf\<close> are the three shapes at a level \<open>lvl\<close>, and the
  fifteen functions are their instances. The key-value list is a list of values here
  (the slice of \<^verbatim>\<open>interface{}\<close> is only read after the append).
\<close>

definition tagsName :: string where
  "tagsName = ''hashtags''"

definition emitKV :: "Level \<Rightarrow> extern \<Rightarrow> world \<Rightarrow> Context \<Rightarrow> string \<Rightarrow> any list \<Rightarrow> error + world" where
  "emitKV lvl X w ctx message kvs =
     (let kvs' =
        (case as_tags (Value ctx loggerContextTags) of
           Some tags \<Rightarrow> kvs @ [AString tagsName, AString (prepareTags (slice_elems (heap w) tags))]
         | None \<Rightarrow> kvs)
      in Sugared_printw X (FromContext w ctx) lvl message kvs' w)"

definition emit :: "Level \<Rightarrow> extern \<Rightarrow> world \<Rightarrow> Context \<Rightarrow> any list \<Rightarrow> error + world" where
  "emit lvl X w ctx args =
     (case as_tags (Value ctx loggerContextTags) of
        Some tags \<Rightarrow>
          emitKV lvl X w ctx (Sprint X args)
            [AString tagsName, AString (prepareTags (slice_elems (heap w) tags))]
      | None \<Rightarrow> Sugared_print X (FromContext w ctx) lvl args w)"

definition emitf :: "Level \<Rightarrow> extern \<Rightarrow> world \<Rightarrow> Context \<Rightarrow> string \<Rightarrow> any list \<Rightarrow> error + world" where
  "emitf lvl X w ctx format args =
     (case as_tags (Value ctx loggerContextTags) of
        Some tags \<Rightarrow>
          emitKV lvl X w ctx (Sprintf X format args)
            [AString tagsName, AString (prepareTags (slice_elems (heap w) tags))]
      | None \<Rightarrow> Sugared_printf X (FromContext w ctx) lvl format args w)"

definition Debug :: "extern \<Rightarrow> world \<Rightarrow> Context \<Rightarrow> any list \<Rightarrow> error + world" where
  "Debug = emit DebugLevel"
definition Debugf :: "extern \<Rightarrow> world \<Rightarrow> Context \<Rightarrow> string \<Rightarrow> any list \<Rightarrow> error + world" where
  "Debugf = emitf DebugLevel"
definition DebugKV :: "extern \<Rightarrow> world \<Rightarrow> Context \<Rightarrow> string \<Rightarrow> any list \<Rightarrow> error + world" where
  "DebugKV = emitKV DebugLevel"

definition Info :: "extern \<Rightarrow> world \<Rightarrow> Context \<Rightarrow> any list \<Rightarrow> error + world" where
  "Info = emit InfoLevel"
definition Infof :: "extern \<Rightarrow> world \<Rightarrow> Context \<Rightarrow> string \<Rightarrow> any list \<Rightarrow> error + world" where
  "Infof = emitf InfoLevel"
definition InfoKV :: "extern \<Rightarrow> world \<Rightarrow> Context \<Rightarrow> string \<Rightarrow> any list \<Rightarrow> error + world" where
  "InfoKV = emitKV InfoLevel"

definition Warn :: "extern \<Rightarrow> world \<Rightarrow> Context \<Rightarrow> any list \<Rightarrow> error + world" where
  "Warn = emit WarnLevel"
definition Warnf :: "extern \<Rightarrow> world \<Rightarrow> Context \<Rightarrow> string \<Rightarrow> any list \<Rightarrow> error + world" where
  "Warnf = emitf WarnLevel"
definition WarnKV :: "extern \<Rightarrow> world \<Rightarrow> Context \<Rightarrow> string \<Rightarrow> any list \<Rightarrow> error + world" where
  "WarnKV = emitKV WarnLevel"

definition Error :: "extern \<Rightarrow> world \<Rightarrow> Context \<Rightarrow> any list \<Rightarrow> error + world" where
  "Error = emit ErrorLevel"
definition Errorf :: "extern \<Rightarrow> world \<Rightarrow> Context \<Rightarrow> string \<Rightarrow> any list \<Rightarrow> error + world" where
  "Errorf = emitf ErrorLevel"
definition ErrorKV :: "extern \<Rightarrow> world \<Rightarrow> Context \<Rightarrow> string \<Rightarrow> any list \<Rightarrow> error + world" where
  "ErrorKV = emitKV ErrorLevel"

definition Fatal :: "extern \<Rightarrow> world \<Rightarrow> Context \<Rightarrow> any list \<Rightarrow> error + world" where
  "Fatal = emit FatalLevel"
definition Fatalf :: "extern \<Rightarrow> world \<Rightarrow> Context \<Rightarrow> string \<Rightarrow> any list \<Rightarrow> error + world" where
  "Fatalf = emitf FatalLevel"
definition FatalKV :: "extern \<Rightarrow> world \<Rightarrow> Context \<Rightarrow> string \<Rightarrow> any list \<Rightarrow> error + world" where
  "FatalKV = emitKV FatalLevel"

section \<open>The factory\<close>

text \<open>
  \<^verbatim>\<open>
  func getZapFields(config *Config) []zapcore.Field {
      var fields []zapcore.Field
      if config.Version != "" {
          fields = append(fields, zap.String("version", config.Version))
      }
      if config.AppName != "" {
          fields = append(fields, zap.String("application_name", config.AppName))
      }
      if config.Host != "" {
          fields = append(fields, zap.String("host", config.Host))
      }
      return fields
  }
  \<close>
  \<open>New\<close> falls back to the package's \<open>level\<close> when it is given no enabler, adds the
  error-output option after the caller's, fills the encoder configuration from the
  settings, picks the console encoder in development mode and the JSON encoder
  otherwise, and attaches the base fields to the new logger. The settings pointer is
  taken to be non-nil.
\<close>

definition level :: LevelEnabler where
  "level = AtomicLevel InfoLevel"

definition defaultCfg :: Config where
  "defaultCfg = \<lparr>LogLevel = ''info'', MessageKey = ''message'', LevelKey = ''severity'',
     TimeKey = ''timestamp'', AppName = ''app'', Host = ''localhost'', Version = ''0.0.0'',
     DevMode = False\<rparr>"

definition getZapFields :: "Config \<Rightarrow> Field list" where
  "getZapFields config =
     (let flds = [];
          flds = (if Version config \<noteq> [] then flds @ [zap_String ''version'' (Version config)]
                    else flds);
          flds = (if AppName config \<noteq> []
                    then flds @ [zap_String ''application_name'' (AppName config)] else flds);
          flds = (if Host config \<noteq> [] then flds @ [zap_String ''host'' (Host config)]
                    else flds)
      in flds)"

definition New :: "LevelEnabler option \<Rightarrow> Config \<Rightarrow> Option list \<Rightarrow> SugaredLogger" where
  "New lvl cfg options =
     (let lvl = (case lvl of None \<Rightarrow> level | Some l \<Rightarrow> l);
          sink = Stdout;
          options = options @ [ErrorOutput sink];
          config = \<lparr>EncTimeKey = TimeKey cfg, EncLevelKey = LevelKey cfg, EncNameKey = ''logger'',
                    EncCallerKey = ''caller'', EncMessageKey = MessageKey cfg,
                    EncStacktraceKey = ''stacktrace'', EncodeLevel = LowercaseLevelEncoder\<rparr>;
          encoder = (if DevMode cfg
                     then ConsoleEncoder (config\<lparr>EncodeLevel := LowercaseColorLevelEncoder\<rparr>)
                     else JSONEncoder (config\<lparr>EncodeLevel := LowercaseLevelEncoder\<rparr>))
      in Sugar (Logger_With (zap_New (NewCore encoder sink lvl) options) (getZapFields cfg)))"

text \<open>\<^verbatim>\<open>func init() { SetLogger(New(level, &defaultCfg)) }\<close>, run on the empty process state.\<close>

definition init :: world where
  "init = SetLogger \<lparr>global = None, stdout = [], heap = [], exited = False\<rparr>
            (Some (New (Some level) defaultCfg []))"

section \<open>Initialization from the environment and live reconfiguration\<close>

text \<open>
  \<^verbatim>\<open>
  func zapLevelFromString(newLogLevel string) (zap.AtomicLevel, error) {
      lvl := zap.NewAtomicLevel()
      err := lvl.UnmarshalText([]byte(newLogLevel))
      return lvl, err
  }
  func InitLogger(prefix, version string) error {
      var cfg struct { Log *Config }
      if err := envconfig.InitWithPrefix(&cfg, prefix); err != nil {
          return fmt.Errorf("can't get log config; err: %w", err)
      }
      cfg.Log.Version = version
      lvl, err := zapLevelFromString(cfg.Log.LogLevel)
      if err != nil {
          return fmt.Errorf("failed to unmurshal log level: %s; err: %v", cfg.Log.LogLevel, err)
      }
      SetLogger(New(lvl, cfg.Log))
      return nil
  }
  \<close>
  An error value is its message; \<open>None\<close> is the nil error.
\<close>

definition zapLevelFromString :: "extern \<Rightarrow> string \<Rightarrow> LevelEnabler \<times> string option" where
  "zapLevelFromString X newLogLevel =
     (case UnmarshalText X newLogLevel of
        Inl err \<Rightarrow> (AtomicLevel InfoLevel, Some err)
      | Inr l \<Rightarrow> (AtomicLevel l, None))"

definition InitLogger :: "extern \<Rightarrow> world \<Rightarrow> string \<Rightarrow> string \<Rightarrow> world \<times> string option" where
  "InitLogger X w pfx version =
     (case InitWithPrefix X pfx of
        Inl err \<Rightarrow> (w, Some (Sprintf X (''can'' @ [char_of (39::nat)] @ ''t get log config; err: %w'') [AError err]))
      | Inr cfgLog \<Rightarrow>
          (let cfgLog = cfgLog\<lparr>Version := version\<rparr>
           in case zapLevelFromString X (LogLevel cfgLog) of
                (lvl, Some err) \<Rightarrow>
                  (w, Some (Sprintf X ''failed to unmurshal log level: %s; err: %v''
                              [AString (LogLevel cfgLog), AError err]))
              | (lvl, None) \<Rightarrow> (SetLogger w (Some (New (Some lvl) cfgLog [])), None)))"

text \<open>
  \<^verbatim>\<open>
  func safeErrorf(format string, args ...interface{}) {
      if l := Logger(); l != nil {
          l.Errorf(format, args...)
      }
  }
  func WatchAndRebuildLogger(ctx context.Context, prefix, version string, cfg *Config, w watcher) {
      w.OnConfigChange(prefix+"_LOG_LOG_LEVEL", func(newVal interface{}) {
          newLogLevel, ok := newVal.(string)
          if !ok {
              safeErrorf("Failed to cast newVal to string, got type %T", newVal)
              return
          }
          lvl, err := zapLevelFromString(newLogLevel)
          if err != nil {
              safeErrorf("Failed to unmarshal log level: %s; err: %v", newLogLevel, err)
              return
          }
          cfg.Version = version
          SetLogger(New(lvl, cfg))
      })
  }
  \<close>
  The callback works on the process state and on the settings behind the pointer
  \<open>cfg\<close>, which it shares with the caller. \<open>WatchAndRebuildLogger\<close> hands the watcher
  a key and the callback.
\<close>

definition safeErrorf :: "extern \<Rightarrow> world \<Rightarrow> string \<Rightarrow> any list \<Rightarrow> error + world" where
  "safeErrorf X w format args =
     (case Logger w of
        None \<Rightarrow> Inr w
      | Some l \<Rightarrow> Sugared_printf X (Some l) ErrorLevel format args w)"

definition onConfigChange ::
  "extern \<Rightarrow> string \<Rightarrow> world \<times> Config \<Rightarrow> any \<Rightarrow> error + (world \<times> Config)" where
  "onConfigChange X version st newVal =
     (let (w, cfg) = st
      in case as_string newVal of
           None \<Rightarrow>
             (case safeErrorf X w ''Failed to cast newVal to string, got type %T'' [newVal] of
                Inl e \<Rightarrow> Inl e
              | Inr w' \<Rightarrow> Inr (w', cfg))
         | Some newLogLevel \<Rightarrow>
             (case zapLevelFromString X newLogLevel of
                (lvl, Some err) \<Rightarrow>
                  (case safeErrorf X w ''Failed to unmarshal log level: %s; err: %v''
                          [AString newLogLevel, AError err] of
                     Inl e \<Rightarrow> Inl e
                   | Inr w' \<Rightarrow> Inr (w', cfg))
              | (lvl, None) \<Rightarrow>
                  (let cfg = cfg\<lparr>Version := version\<rparr>
                   in Inr (SetLogger w (Some (New (Some lvl) cfg [])), cfg))))"

definition WatchAndRebuildLogger ::
  "extern \<Rightarrow> string \<Rightarrow> string \<Rightarrow> string \<times> (world \<times> Config \<Rightarrow> any \<Rightarrow> error + (world \<times> Config))" where
  "WatchAndRebuildLogger X pfx version = (pfx @ ''_LOG_LOG_LEVEL'', onConfigChange X version)"

section \<open>Lock discipline of the registry\<close>

text \<open>
  The shared variable \<open>global\<close> and the reader/writer lock \<open>globalGuard\<close>, seen as the
  sequence of lock operations and accesses each function performs, in program order:
  \<open>Logger\<close> takes the read lock, reads \<open>global\<close> and releases the lock on return;
  \<open>SetLogger\<close> does the same with the write lock around its write; \<open>FromContext\<close>
  starts with \<^verbatim>\<open>l := global\<close>, a read of the variable with no lock operation around
  it, whatever the context holds.

  Threads run interleaved. The lock admits a reader when no writer holds it and a writer
  when nobody holds it; an access to the variable is always possible. A state is a data
  race when two different threads are both about to access the variable and one of the
  accesses is a write: nothing orders the two.
\<close>

datatype access = RLock | RUnlock | Lock | Unlock | ReadGlobal | WriteGlobal

definition Logger_accesses :: "access list" where
  "Logger_accesses = [RLock, ReadGlobal, RUnlock]"

definition SetLogger_accesses :: "access list" where
  "SetLogger_accesses = [Lock, WriteGlobal, Unlock]"

definition FromContext_accesses :: "access list" where
  "FromContext_accesses = [ReadGlobal]"

record machine =
  readers :: nat
  writer :: bool
  threads :: "access list list"

definition start :: "access list list \<Rightarrow> machine" where
  "start ts = \<lparr>readers = 0, writer = False, threads = ts\<rparr>"

fun enabled :: "machine \<Rightarrow> access \<Rightarrow> bool" where
  "enabled m RLock = (\<not> writer m)"
| "enabled m Lock = (\<not> writer m \<and> readers m = 0)"
| "enabled m a = True"

fun perform :: "access \<Rightarrow> machine \<Rightarrow> machine" where
  "perform RLock m = m\<lparr>readers := Suc (readers m)\<rparr>"
| "perform RUnlock m = m\<lparr>readers := readers m - 1\<rparr>"
| "perform Lock m = m\<lparr>writer := True\<rparr>"
| "perform Unlock m = m\<lparr>writer := False\<rparr>"
| "perform a m = m"

definition step :: "nat \<Rightarrow> machine \<Rightarrow> machine option" where
  "step i m =
     (if i < length (threads m) then
        (case threads m ! i of
           [] \<Rightarrow> None
         | a # rest \<Rightarrow>
             if enabled m a then Some ((perform a m)\<lparr>threads := (threads m)[i := rest]\<rparr>)
             else None)
      else None)"

fun run :: "nat list \<Rightarrow> machine \<Rightarrow> machine option" where
  "run [] m = Some m"
| "run (i # sched) m = (case step i m of None \<Rightarrow> None | Some m' \<Rightarrow> run sched m')"

definition about_to :: "machine \<Rightarrow> nat \<Rightarrow> access \<Rightarrow> bool" where
  "about_to m i a = (case threads m ! i of [] \<Rightarrow> False | b # rest \<Rightarrow> b = a)"

definition race :: "machine \<Rightarrow> bool" where
  "race m =
     list_ex (\<lambda>i. list_ex (\<lambda>j. i \<noteq> j \<and> about_to m i WriteGlobal
                                 \<and> (about_to m j ReadGlobal \<or> about_to m j WriteGlobal))
                          [0..<length (threads m)])
             [0..<length (threads m)]"

section \<open>Notions used to state the properties\<close>

text \<open>The logger pointer and the tag slice a context carries, if any.\<close>

definition attached :: "Context \<Rightarrow> SugaredLogger option option" where
  "attached ctx = as_logger (Value ctx loggerContextKey)"

definition carried :: "Context \<Rightarrow> Slice option" where
  "carried ctx = as_tags (Value ctx loggerContextTags)"

text \<open>
  A key-value list read by position: pair \<open>i\<close> is made of the elements at \<open>2 i\<close> and
  \<open>2 i + 1\<close>, so a list of odd length has a last element that belongs to no pair.
  \<open>valid_fields\<close> are the pairs with a string key, as fields, in order;
  \<open>invalid_positions\<close> are the pairs whose key is not a string.
\<close>

definition valid_fields :: "any list \<Rightarrow> Field list" where
  "valid_fields kvs =
     concat (map (\<lambda>i. case as_string (kvs ! (2 * i)) of
                          Some key \<Rightarrow> [(key, kvs ! Suc (2 * i))]
                        | None \<Rightarrow> [])
               [0..<length kvs div 2])"

definition invalid_positions :: "any list \<Rightarrow> nat list" where
  "invalid_positions kvs = filter (\<lambda>i. as_string (kvs ! (2 * i)) = None) [0..<length kvs div 2]"

fun pairs_of :: "'a list \<Rightarrow> ('a \<times> 'a) list" where
  "pairs_of (k # v # rest) = (k, v) # pairs_of rest"
| "pairs_of _ = []"

text \<open>
  What one call \<^verbatim>\<open>l.Warn(fmt.Sprintf("invalid KVs key %v", key))\<close> of \<open>ContextWithKV\<close>
  writes through the logger \<open>l\<close>, and what one call of \<open>safeErrorf\<close> writes through the
  registry's logger.
\<close>

definition invalid_key_warning :: "extern \<Rightarrow> zap_Logger \<Rightarrow> Line list" where
  "invalid_key_warning X l =
     (if Core_Enabled (core l) WarnLevel
      then [Core_Write (core l)
              \<lparr>Level = WarnLevel, Message = Sprintf X ''invalid KVs key %v'' [AString []]\<rparr> []]
      else [])"

definition local_error_log :: "extern \<Rightarrow> world \<Rightarrow> string \<Rightarrow> any list \<Rightarrow> Line list" where
  "local_error_log X w format args =
     (case Logger w of
        None \<Rightarrow> []
      | Some l \<Rightarrow>
          if Core_Enabled (core l) ErrorLevel
          then [Core_Write (core l) \<lparr>Level = ErrorLevel, Message = getMessage X format args\<rparr> []]
          else [])"

text \<open>
  A slice is valid in a store when its array exists and holds its whole capacity; the
  nil slice has length and capacity zero.
\<close>

definition valid_slice :: "heap \<Rightarrow> Slice \<Rightarrow> bool" where
  "valid_slice h s =
     (case ptr s of
        None \<Rightarrow> len s = 0 \<and> cap s = 0
      | Some a \<Rightarrow> a < length h \<and> off s + cap s \<le> length (h ! a) \<and> len s \<le> cap s)"

text \<open>
  The phases of a thread that runs \<open>Logger\<close> or \<open>SetLogger\<close>: \<open>reading\<close> while it holds
  the read lock, \<open>writing\<close> while it holds the write lock. A machine is \<open>guarded\<close> when
  every thread is in a phase of one of the two functions, the lock counts exactly the
  threads that hold it for reading, it is write-locked exactly when one thread holds it
  for writing, and then nobody reads.
\<close>

definition reading :: "access list \<Rightarrow> bool" where
  "reading t = (t = [ReadGlobal, RUnlock] \<or> t = [RUnlock])"

definition writing :: "access list \<Rightarrow> bool" where
  "writing t = (t = [WriteGlobal, Unlock] \<or> t = [Unlock])"

definition in_phase :: "access list \<Rightarrow> bool" where
  "in_phase t = (t = Logger_accesses \<or> t = SetLogger_accesses \<or> reading t \<or> writing t \<or> t = [])"

definition guarded :: "machine \<Rightarrow> bool" where
  "guarded m =
     (list_all in_phase (threads m)
      \<and> readers m = length (filter reading (threads m))
      \<and> length (filter writing (threads m)) = (if writer m then 1 else 0)
      \<and> (if writer m then readers m = 0 else True))"

section \<open>An instance of the library functions\<close>

text \<open>
  To evaluate the model on concrete inputs: a formatter that knows the default format of
  the values above, the rule of \<^verbatim>\<open>Sprint\<close> for spaces (between two operands when
  neither is a string) and the verbs the program uses (\<^verbatim>\<open>%T\<close> prints the type, any
  other verb the default format); the level parser with the tokens the logging library
  documents (tried as written, then in lower case); and a configuration loader in an
  environment that sets no variable, which loads the defaults.
\<close>

fun show_any :: "any \<Rightarrow> string" where
  "show_any (AString s) = s"
| "show_any (AInt i) = show_int i"
| "show_any (ABool b) = (if b then ''true'' else ''false'')"
| "show_any ANil = ''<nil>''"
| "show_any (AError e) = e"
| "show_any ATime = ''<time>''"
| "show_any (AOther n) = ''<value>''"

fun type_name :: "any \<Rightarrow> string" where
  "type_name (AString s) = ''string''"
| "type_name (AInt i) = ''int''"
| "type_name (ABool b) = ''bool''"
| "type_name ANil = ''<nil>''"
| "type_name (AError e) = ''*errors.errorString''"
| "type_name ATime = ''time.Time''"
| "type_name (AOther n) = ''<type>''"

fun go_Sprint :: "any list \<Rightarrow> string" where
  "go_Sprint [] = []"
| "go_Sprint [x] = show_any x"
| "go_Sprint (x # y # rest) =
     show_any x @ (if as_string x = None \<and> as_string y = None then '' '' else [])
     @ go_Sprint (y # rest)"

fun go_Sprintf :: "string \<Rightarrow> any list \<Rightarrow> string" where
  "go_Sprintf [] args = []"
| "go_Sprintf [c] args = (if c = CHR ''%'' then ''%!(NOVERB)'' else [c])"
| "go_Sprintf (c # v # rest) args =
     (if c \<noteq> CHR ''%'' then c # go_Sprintf (v # rest) args
      else if v = CHR ''%'' then CHR ''%'' # go_Sprintf rest args
      else (case args of
              [] \<Rightarrow> ''%!'' @ [v] @ ''(MISSING)'' @ go_Sprintf rest []
            | a # as \<Rightarrow> (if v = CHR ''T'' then type_name a else show_any a) @ go_Sprintf rest as))"

definition level_of_token :: "string \<Rightarrow> Level option" where
  "level_of_token t =
     (if t = ''debug'' \<or> t = ''DEBUG'' then Some DebugLevel
      else if t = ''info'' \<or> t = ''INFO'' \<or> t = [] then Some InfoLevel
      else if t = ''warn'' \<or> t = ''WARN'' then Some WarnLevel
      else if t = ''error'' \<or> t = ''ERROR'' then Some ErrorLevel
      else if t = ''dpanic'' \<or> t = ''DPANIC'' then Some DPanicLevel
      else if t = ''panic'' \<or> t = ''PANIC'' then Some PanicLevel
      else if t = ''fatal'' \<or> t = ''FATAL'' then Some FatalLevel
      else None)"

definition ToLower :: "string \<Rightarrow> string" where
  "ToLower s =
     map (\<lambda>c. if (65::nat) \<le> of_char c \<and> of_char c \<le> (90::nat)
              then char_of (of_char c + (32::nat)) else c) s"

definition zap_UnmarshalText :: "string \<Rightarrow> string + Level" where
  "zap_UnmarshalText t =
     (case level_of_token t of
        Some l \<Rightarrow> Inr l
      | None \<Rightarrow>
          (case level_of_token (ToLower t) of
             Some l \<Rightarrow> Inr l
           | None \<Rightarrow> Inl (''unrecognized level: '' @ t)))"

definition stock :: extern where
  "stock = \<lparr>Sprint = go_Sprint, Sprintf = go_Sprintf, UnmarshalText = zap_UnmarshalText,
            InitWithPrefix = (\<lambda>pfx. Inr defaultCfg)\<rparr>"

section \<open>Properties of tag rendering\<close>

lemma ReplaceAll_Nil:
  "old \<noteq> [] \<Longrightarrow> ReplaceAll [] old new = []"
  by (subst ReplaceAll.simps) simp

lemma ReplaceAll_Cons:
  "old \<noteq> [] \<Longrightarrow> ReplaceAll (c # cs) old new =
     (if prefix old (c # cs) then new @ ReplaceAll (drop (length old) (c # cs)) old new
      else c # ReplaceAll cs old new)"
  by (subst ReplaceAll.simps) simp

lemma ReplaceAll_space:
  "ReplaceAll t '' '' '''' = strip_spaces t"
  by (induction t) (simp_all add: ReplaceAll_Nil ReplaceAll_Cons strip_spaces_def)

lemma prepareTags_loop_spec:
  "prepareTags_loop b ts = b @ render_tags_spec ts"
  by (induction ts arbitrary: b)
    (simp_all add: render_tags_spec_def render_tag_def ReplaceAll_space
      WriteRune_def WriteString_def)

lemma prepareTags_spec:
  "prepareTags ts = render_tags_spec ts"
  by (simp add: prepareTags_def prepareTags_loop_spec)

lemma prepareTags_append:
  "prepareTags (xs @ ys) = prepareTags xs @ prepareTags ys"
  by (simp add: prepareTags_spec render_tags_spec_def)

lemma count_spaces_render_tag:
  "count_list (render_tag t) (CHR '' '') = 1"
proof -
  have "count_list (filter (\<lambda>c. c \<noteq> CHR '' '') t) (CHR '' '') = 0"
    by (induction t) simp_all
  then show ?thesis
    by (simp add: render_tag_def strip_spaces_def)
qed

lemma count_list_concat:
  "count_list (concat xss) a = sum_list (map (\<lambda>xs. count_list xs a) xss)"
  by (induction xss) simp_all

lemma count_spaces_prepareTags:
  "count_list (prepareTags ts) (CHR '' '') = length ts"
  by (simp add: prepareTags_spec render_tags_spec_def count_list_concat comp_def
      count_spaces_render_tag sum_list_triv)

text \<open>
  Claim C2. For every ordered sequence of tags, \<open>prepareTags\<close> returns the
  concatenation, in the order of the sequence, of one \<open>#\<close>, the tag with all its space
  characters removed, and one trailing space per tag: the result holds exactly as many
  spaces as there are tags. The empty sequence renders to the empty string.
\<close>

theorem C2_prepareTags_renders_in_order:
  "prepareTags ts = concat (map (\<lambda>t. ''#'' @ filter (\<lambda>c. c \<noteq> CHR '' '') t @ '' '') ts)
   \<and> count_list (prepareTags ts) (CHR '' '') = length ts
   \<and> prepareTags [] = ''''"
proof -
  have "prepareTags ts = concat (map (\<lambda>t. ''#'' @ filter (\<lambda>c. c \<noteq> CHR '' '') t @ '' '') ts)"
    by (induction ts)
      (simp_all add: prepareTags_spec render_tags_spec_def render_tag_def strip_spaces_def)
  moreover have "prepareTags [] = ''''"
    by (simp add: prepareTags_def)
  ultimately show ?thesis
    using count_spaces_prepareTags by blast
qed

section \<open>The severity gate and the factory\<close>

lemma Core_fields_With:
  "Core_fields (Core_With c flds) = Core_fields c @ flds"
  by (induction c) simp_all

lemma Core_fields_apply_Option:
  "Core_fields (core (apply_Option log opt)) = Core_fields (core log)"
  by (cases opt) simp_all

lemma Core_fields_WithOptions:
  "Core_fields (core (WithOptions log opts)) = Core_fields (core log)"
  unfolding WithOptions_def
  by (induction opts arbitrary: log) (simp_all add: Core_fields_apply_Option)

lemma Core_fields_Logger_With:
  "Core_fields (core (Logger_With log flds)) = Core_fields (core log) @ flds"
  by (simp add: Logger_With_def Core_fields_With)

lemma Core_fields_New:
  "Core_fields (core (New lvl cfg options)) = getZapFields cfg"
  by (simp add: New_def Let_def Sugar_def Core_fields_Logger_With zap_New_def
      Core_fields_WithOptions NewCore_def)

lemma getZapFields_eq:
  "getZapFields cfg =
     (if Version cfg \<noteq> [] then [(''version'', AString (Version cfg))] else [])
     @ (if AppName cfg \<noteq> [] then [(''application_name'', AString (AppName cfg))] else [])
     @ (if Host cfg \<noteq> [] then [(''host'', AString (Host cfg))] else [])"
  by (simp add: getZapFields_def zap_String_def)

lemma gate_survives_With:
  "\<exists>c'. core (Logger_With (zap_New c (opts @ [WithLevel t, ErrorOutput s])) fs)
           = coreWithLevel c' t"
  by (simp add: zap_New_def WithOptions_def Logger_With_def)

lemma core_New_WithLevel:
  "\<exists>c. core (New enab cfg (options @ [WithLevel target])) = coreWithLevel c target"
  by (simp add: New_def Let_def Sugar_def gate_survives_With)

lemma Enabled_New_WithLevel:
  "Core_Enabled (core (New enab cfg (options @ [WithLevel target]))) l = (sint target \<le> sint l)"
proof -
  obtain c where "core (New enab cfg (options @ [WithLevel target])) = coreWithLevel c target"
    using core_New_WithLevel by blast
  then show ?thesis by (simp add: Level_Enabled_def)
qed

text \<open>
  Claim C3. For every wrapped sink \<open>c\<close> and target severity, the gate (a) reports a
  level as enabled, and accepts an entry in \<open>Check\<close>, exactly when the level is at or
  above the target as signed 8-bit numbers, whatever the wrapped sink and its own
  level are, and writes an accepted entry through the wrapped sink; (b) \<open>With\<close>
  returns a gate with the same target around the wrapped sink enriched with the
  fields. A gate at \<open>warn\<close> rejects \<open>info\<close> and accepts \<open>error\<close>. A logger built
  by the factory with the option \<open>WithLevel target\<close> last, whatever enabler and settings
  it is given, is enabled exactly at the levels at or above the target: the gate is
  still there after the factory attached the base fields.
\<close>

theorem C3_coreWithLevel_gate:
  "Core_Enabled (coreWithLevel c target) l = (sint target \<le> sint l)
   \<and> Core_Check (coreWithLevel c target) ent ce =
       (if sint target \<le> sint (Level ent) then ce @ [coreWithLevel c target] else ce)
   \<and> Core_Write (coreWithLevel c target) ent flds = Core_Write c ent flds
   \<and> Core_With (coreWithLevel c target) flds = coreWithLevel (Core_With c flds) target
   \<and> \<not> Core_Enabled (coreWithLevel c WarnLevel) InfoLevel
   \<and> Core_Enabled (coreWithLevel c WarnLevel) ErrorLevel
   \<and> Core_Enabled (core (New enab cfg (options @ [WithLevel target]))) l = (sint target \<le> sint l)"
  using Enabled_New_WithLevel
  by (simp add: Level_Enabled_def AddCore_def WarnLevel_def InfoLevel_def ErrorLevel_def)

text \<open>
  Claim C8. For every settings record (and every enabler and option list), the fields
  attached to the handle that \<open>New\<close> builds are \<open>getZapFields\<close> of the settings:
  \<open>version\<close>, \<open>application_name\<close>, \<open>host\<close> in this order, each present exactly when
  its value is not empty. With version 1.2.3, application name svc and an empty host
  they are the version and the application name, without a host.
\<close>

theorem C8_New_base_fields:
  "Core_fields (core (New lvl cfg options)) = getZapFields cfg
   \<and> getZapFields cfg =
       (if Version cfg \<noteq> [] then [(''version'', AString (Version cfg))] else [])
       @ (if AppName cfg \<noteq> [] then [(''application_name'', AString (AppName cfg))] else [])
       @ (if Host cfg \<noteq> [] then [(''host'', AString (Host cfg))] else [])
   \<and> Core_fields (core (New lvl (cfg\<lparr>Version := ''1.2.3'', AppName := ''svc'', Host := ''''\<rparr>) options)) =
       [(''version'', AString ''1.2.3''), (''application_name'', AString ''svc'')]"
  using Core_fields_New getZapFields_eq
  by (simp add: getZapFields_def zap_String_def)

section \<open>Resolving the logger of a context\<close>

lemma sint_levels:
  "sint DebugLevel = - 1" "sint InfoLevel = 0" "sint WarnLevel = 1" "sint ErrorLevel = 2"
  "sint DPanicLevel = 3" "sint PanicLevel = 4" "sint FatalLevel = 5"
  by (simp_all add: DebugLevel_def InfoLevel_def WarnLevel_def ErrorLevel_def DPanicLevel_def
      PanicLevel_def FatalLevel_def)

lemma levels_distinct:
  "InfoLevel \<noteq> PanicLevel" "InfoLevel \<noteq> FatalLevel"
  "WarnLevel \<noteq> PanicLevel" "WarnLevel \<noteq> FatalLevel"
  "ErrorLevel \<noteq> PanicLevel" "ErrorLevel \<noteq> FatalLevel"
  "DebugLevel \<noteq> PanicLevel" "DebugLevel \<noteq> FatalLevel"
  by (simp_all add: DebugLevel_def InfoLevel_def WarnLevel_def ErrorLevel_def
      PanicLevel_def FatalLevel_def)

lemma Level_String_named:
  "Level_String DebugLevel = ''debug''" "Level_String InfoLevel = ''info''"
  "Level_String WarnLevel = ''warn''" "Level_String ErrorLevel = ''error''"
  "Level_String DPanicLevel = ''dpanic''" "Level_String PanicLevel = ''panic''"
  "Level_String FatalLevel = ''fatal''"
  by (simp_all add: Level_String_def DebugLevel_def InfoLevel_def WarnLevel_def ErrorLevel_def
      DPanicLevel_def PanicLevel_def FatalLevel_def)

lemma New_default:
  "New (Some level) defaultCfg [] =
     \<lparr>core = ioCore (AtomicLevel InfoLevel)
        (JSONEncoder \<lparr>EncTimeKey = ''timestamp'', EncLevelKey = ''severity'',
           EncNameKey = ''logger'', EncCallerKey = ''caller'', EncMessageKey = ''message'',
           EncStacktraceKey = ''stacktrace'', EncodeLevel = LowercaseLevelEncoder\<rparr>)
        [(''version'', AString ''0.0.0''), (''application_name'', AString ''app''),
         (''host'', AString ''localhost'')],
      errorOutput = Stdout\<rparr>"
  by (simp add: New_def level_def defaultCfg_def Let_def getZapFields_def zap_String_def
      Logger_With_def zap_New_def WithOptions_def NewCore_def Sugar_def)

lemma init_eq:
  "init = \<lparr>global = Some (New (Some level) defaultCfg []), stdout = [], heap = [],
            exited = False\<rparr>"
  by (simp add: init_def SetLogger_def)

lemma init_fields:
  "global init = Some (New (Some level) defaultCfg [])" "stdout init = []" "heap init = []"
  "exited init = False"
  by (simp_all add: init_eq)

lemma FromContext_ToContext:
  "FromContext w (ToContext ctx l) = l"
  by (simp add: FromContext_def ToContext_def)

text \<open>
  Claim C6, as the code has it. Resolving a context returns the handle attached nearest
  to it when there is one, a nil pointer included, and the registry's handle otherwise;
  after the registry's handle is replaced, resolving a context without an attached
  handle returns the new handle. The result is not nil when the registry's handle is not
  nil and the nearest attachment, if any, is not nil; the registry's handle is not nil
  after initialization.
\<close>

theorem C6_FromContext_resolves:
  "(attached ctx = Some l \<longrightarrow> FromContext w ctx = l)
   \<and> (attached ctx = None \<longrightarrow>
        FromContext w ctx = Logger w \<and> FromContext (SetLogger w l') ctx = l')
   \<and> (Logger w \<noteq> None \<and> attached ctx \<noteq> Some None \<longrightarrow> FromContext w ctx \<noteq> None)
   \<and> attached (ToContext ctx l) = Some l
   \<and> Logger init \<noteq> None"
  by (auto simp: FromContext_def attached_def Logger_def SetLogger_def ToContext_def init_def
      split: option.splits)

theorem C6_FromContext_resolves_witness:
  "attached (ToContext Background (Some (New None defaultCfg []))) = Some (Some (New None defaultCfg []))
   \<and> FromContext init (ToContext Background (Some (New None defaultCfg []))) = Some (New None defaultCfg [])
   \<and> attached Background = None
   \<and> FromContext init Background = Logger init
   \<and> FromContext (SetLogger init (Some (New None defaultCfg [WithLevel WarnLevel]))) Background
       = Some (New None defaultCfg [WithLevel WarnLevel])
   \<and> Logger init \<noteq> None \<and> attached Background \<noteq> Some None
   \<and> FromContext init Background \<noteq> None"
  using C6_FromContext_resolves
      [of "ToContext Background (Some (New None defaultCfg []))" "Some (New None defaultCfg [])" init]
    C6_FromContext_resolves [of Background _ init "Some (New None defaultCfg [WithLevel WarnLevel])"]
  by (simp add: attached_def ToContext_def)

text \<open>
  The claim as the specification states it, that resolving never returns nil, fails: a
  nil handle attached with \<open>ToContext\<close> is returned, and so is a nil handle stored in
  the registry.
\<close>

theorem C6_nil_handle_counterexample:
  "FromContext init (ToContext Background None) = None
   \<and> FromContext (SetLogger init None) Background = None"
  by (simp add: FromContext_def ToContext_def SetLogger_def)

section \<open>Emission under a tag list\<close>

lemma emitKV_tagged:
  "carried ctx = Some s \<Longrightarrow>
   emitKV lvl X w ctx msg kvs =
     Sugared_printw X (FromContext w ctx) lvl msg
       (kvs @ [AString ''hashtags'', AString (prepareTags (slice_elems (heap w) s))]) w"
  by (simp add: emitKV_def carried_def tagsName_def)

lemma emitKV_untagged:
  "carried ctx = None \<Longrightarrow>
   emitKV lvl X w ctx msg kvs = Sugared_printw X (FromContext w ctx) lvl msg kvs w"
  by (simp add: emitKV_def carried_def)

lemma emit_tagged:
  "carried ctx = Some s \<Longrightarrow>
   emit lvl X w ctx args =
     emitKV lvl X w ctx (Sprint X args)
       [AString ''hashtags'', AString (prepareTags (slice_elems (heap w) s))]"
  by (simp add: emit_def carried_def tagsName_def)

lemma emitf_tagged:
  "carried ctx = Some s \<Longrightarrow>
   emitf lvl X w ctx format args =
     emitKV lvl X w ctx (Sprintf X format args)
       [AString ''hashtags'', AString (prepareTags (slice_elems (heap w) s))]"
  by (simp add: emitf_def carried_def tagsName_def)

lemma emit_untagged:
  "carried ctx = None \<Longrightarrow> emit lvl X w ctx args = Sugared_print X (FromContext w ctx) lvl args w"
  by (simp add: emit_def carried_def)

lemma emitf_untagged:
  "carried ctx = None \<Longrightarrow>
   emitf lvl X w ctx format args = Sugared_printf X (FromContext w ctx) lvl format args w"
  by (simp add: emitf_def carried_def)

lemma ContextWithTags_of_Nil:
  "carried ctx = None \<Longrightarrow>
   ContextWithTags_of grow w ctx [] = (w, WithValue ctx loggerContextTags (TagsVal nil_slice))"
  by (simp add: ContextWithTags_of_def ContextWithTags_def variadic_def carried_def)

lemma FromContext_WithTags:
  "FromContext w (WithValue ctx loggerContextTags v) = FromContext w ctx"
  by (simp add: FromContext_def)

lemma carried_WithTags:
  "carried (WithValue ctx loggerContextTags (TagsVal s)) = Some s"
  by (simp add: carried_def)

lemma sweetenFields_append:
  "even (length kvs) \<Longrightarrow> sweetenFields (kvs @ rest) = sweetenFields kvs @ sweetenFields rest"
  by (induction kvs rule: sweetenFields.induct) (auto split: option.splits)

lemma prepareTags_release: "prepareTags [''release''] = ''#release ''"
  by (simp add: prepareTags_spec render_tags_spec_def render_tag_def strip_spaces_def)

lemma Check_cases:
  "Core_Check c ent [] = (if Core_Enabled c (Level ent) then [c] else [])"
  by (cases c) (simp_all add: AddCore_def)

lemma InfoKV_default_logger:
  "FromContext w ctx = Some (New (Some level) defaultCfg []) \<Longrightarrow>
   Sugared_printw X (FromContext w ctx) InfoLevel msg kvs w =
     Inr (w\<lparr>stdout := stdout w @ [JSONLine
            ([(''severity'', AString ''info''), (''timestamp'', ATime), (''message'', AString msg),
              (''version'', AString ''0.0.0''), (''application_name'', AString ''app''),
              (''host'', AString ''localhost'')] @ sweetenFields kvs)]\<rparr>)"
  by (simp add: Sugared_printw_def Sugared_log_def New_default sint_levels levels_distinct
      Level_Enabled_def Logger_log_def AddCore_def getMessage_def entry_head_def
      Level_String_named)

lemma release_example:
  "(let (w, ctx) = ContextWithTags_of grow init Background [''release'']
    in InfoKV X w ctx ''started'' [AString ''port'', AInt 8080])
   = Inr (init\<lparr>heap := [[''release'']], stdout := [JSONLine
             [(''severity'', AString ''info''), (''timestamp'', ATime),
              (''message'', AString ''started''), (''version'', AString ''0.0.0''),
              (''application_name'', AString ''app''), (''host'', AString ''localhost''),
              (''port'', AInt 8080), (''hashtags'', AString ''#release '')]]\<rparr>)"
proof -
  let ?w = "init\<lparr>heap := [[''release'']]\<rparr>"
  let ?s = "\<lparr>ptr = Some 0, off = 0, len = 1, cap = 1\<rparr>"
  let ?c = "WithValue Background loggerContextTags (TagsVal ?s)"
  have d: "ContextWithTags_of grow init Background [''release''] = (?w, ?c)"
    by (simp add: ContextWithTags_of_def ContextWithTags_def variadic_def init_eq)
  have r: "FromContext ?w ?c = Some (New (Some level) defaultCfg [])"
    by (simp add: FromContext_def init_eq)
  have t: "prepareTags (slice_elems (heap ?w) ?s) = ''#release ''"
    by (simp add: slice_elems_def prepareTags_release)
  have "InfoKV X ?w ?c ''started'' [AString ''port'', AInt 8080] =
      Sugared_printw X (FromContext ?w ?c) InfoLevel ''started''
        ([AString ''port'', AInt 8080] @
         [AString ''hashtags'', AString (prepareTags (slice_elems (heap ?w) ?s))]) ?w"
    unfolding InfoKV_def by (rule emitKV_tagged [OF carried_WithTags])
  also have "\<dots> = Inr (?w\<lparr>stdout := stdout ?w @ [JSONLine
      ([(''severity'', AString ''info''), (''timestamp'', ATime),
        (''message'', AString ''started''), (''version'', AString ''0.0.0''),
        (''application_name'', AString ''app''), (''host'', AString ''localhost'')]
       @ sweetenFields ([AString ''port'', AInt 8080] @
           [AString ''hashtags'', AString ''#release '']))]\<rparr>)"
    unfolding t by (rule InfoKV_default_logger [OF r])
  finally show ?thesis
    unfolding d by (simp add: zap_Any_def init_eq)
qed

text \<open>
  Claim C4. On a context that carries a tag list, at every level: the key-value form
  hands the resolved handle the caller's list followed by the key \<open>hashtags\<close> and the
  rendered tag string; the plain and the formatted form are the key-value form on the
  concatenated, respectively formatted, message with the list made of that key and
  value. With the default settings, the info-level key-value emission of
  \<open>started\<close> with the pair \<open>port\<close>, 8080 under the tags \<open>[release]\<close> writes the record
  with \<open>severity = info\<close>, \<open>message = started\<close>, the base fields, \<open>port = 8080\<close> and
  \<open>hashtags = #release \<close>.
\<close>

theorem C4_tagged_emission_appends_hashtags:
  assumes "carried ctx = Some s"
  shows "emitKV lvl X w ctx msg kvs =
           Sugared_printw X (FromContext w ctx) lvl msg
             (kvs @ [AString ''hashtags'', AString (prepareTags (slice_elems (heap w) s))]) w
         \<and> emit lvl X w ctx args =
             emitKV lvl X w ctx (Sprint X args)
               [AString ''hashtags'', AString (prepareTags (slice_elems (heap w) s))]
         \<and> emitf lvl X w ctx format args =
             emitKV lvl X w ctx (Sprintf X format args)
               [AString ''hashtags'', AString (prepareTags (slice_elems (heap w) s))]
         \<and> (let (w1, c1) = ContextWithTags_of grow init Background [''release'']
             in InfoKV X w1 c1 ''started'' [AString ''port'', AInt 8080])
            = Inr (init\<lparr>heap := [[''release'']], stdout := [JSONLine
                [(''severity'', AString ''info''), (''timestamp'', ATime),
                 (''message'', AString ''started''), (''version'', AString ''0.0.0''),
                 (''application_name'', AString ''app''), (''host'', AString ''localhost''),
                 (''port'', AInt 8080), (''hashtags'', AString ''#release '')]]\<rparr>)"
  using emitKV_tagged [OF assms] emit_tagged [OF assms] emitf_tagged [OF assms] release_example
  by simp

theorem C4_tagged_emission_appends_hashtags_witness:
  "carried (WithValue Background loggerContextTags (TagsVal \<lparr>ptr = Some 0, off = 0, len = 2, cap = 2\<rparr>))
     = Some \<lparr>ptr = Some 0, off = 0, len = 2, cap = 2\<rparr>
   \<and> WarnKV stock (init\<lparr>heap := [[''blue team'', ''eu'']]\<rparr>)
        (WithValue Background loggerContextTags (TagsVal \<lparr>ptr = Some 0, off = 0, len = 2, cap = 2\<rparr>))
        ''slow'' [AString ''ms'', AInt 250]
      = Sugared_printw stock (Some (New (Some level) defaultCfg [])) WarnLevel ''slow''
          [AString ''ms'', AInt 250, AString ''hashtags'', AString ''#blueteam #eu ''] 
          (init\<lparr>heap := [[''blue team'', ''eu'']]\<rparr>)"
proof -
  let ?s = "\<lparr>ptr = Some 0, off = 0, len = 2, cap = 2\<rparr>"
  let ?c = "WithValue Background loggerContextTags (TagsVal ?s)"
  let ?w = "init\<lparr>heap := [[''blue team'', ''eu'']]\<rparr>"
  have h: "carried ?c = Some ?s" by (simp add: carried_def)
  have t: "prepareTags (slice_elems (heap ?w) ?s) = ''#blueteam #eu ''"
    by (simp add: slice_elems_def prepareTags_spec render_tags_spec_def render_tag_def
        strip_spaces_def)
  have r: "FromContext ?w ?c = Some (New (Some level) defaultCfg [])"
    by (simp add: FromContext_def init_fields)
  have "WarnKV stock ?w ?c ''slow'' [AString ''ms'', AInt 250] =
      Sugared_printw stock (FromContext ?w ?c) WarnLevel ''slow''
        ([AString ''ms'', AInt 250] @
         [AString ''hashtags'', AString (prepareTags (slice_elems (heap ?w) ?s))]) ?w"
    unfolding WarnKV_def by (rule C4_tagged_emission_appends_hashtags [OF h, THEN conjunct1])
  then show ?thesis
    unfolding t r using h by simp
qed

text \<open>
  Claim C10. On a context with no tag list among its ancestors, \<open>ContextWithTags\<close>
  with no tag arguments leaves the process state alone and attaches the nil slice, an
  empty tag list. Every emission through the derived context then takes the tagged
  path: the key-value form appends the key \<open>hashtags\<close> with the empty string as its
  value, and the plain and formatted forms go through the key-value form (which appends
  the pair once more). Through the original context the handle gets the caller's
  arguments as they are. With the default logger the record written under the derived
  context has a \<open>hashtags\<close> field with an empty value, and the record written under
  the original context has no such field.
\<close>

theorem C10_zero_tags_attach_empty_list:
  assumes "carried ctx = None"
  shows "(case ContextWithTags_of grow w ctx [] of
            (w', ctx') \<Rightarrow>
              w' = w \<and> carried ctx' = Some nil_slice \<and> tags_of w' ctx' = Some []
              \<and> emitKV lvl X w' ctx' msg kvs =
                  Sugared_printw X (FromContext w ctx) lvl msg
                    (kvs @ [AString ''hashtags'', AString '''']) w
              \<and> emit lvl X w' ctx' args =
                  Sugared_printw X (FromContext w ctx) lvl (Sprint X args)
                    [AString ''hashtags'', AString '''', AString ''hashtags'', AString ''''] w
              \<and> emitf lvl X w' ctx' format args =
                  Sugared_printw X (FromContext w ctx) lvl (Sprintf X format args)
                    [AString ''hashtags'', AString '''', AString ''hashtags'', AString ''''] w)
         \<and> emitKV lvl X w ctx msg kvs = Sugared_printw X (FromContext w ctx) lvl msg kvs w
         \<and> emit lvl X w ctx args = Sugared_print X (FromContext w ctx) lvl args w
         \<and> emitf lvl X w ctx format args = Sugared_printf X (FromContext w ctx) lvl format args w
         \<and> InfoKV X init (snd (ContextWithTags_of grow init Background [])) ''up'' [] =
             Inr (init\<lparr>stdout := [JSONLine
                [(''severity'', AString ''info''), (''timestamp'', ATime),
                 (''message'', AString ''up''), (''version'', AString ''0.0.0''),
                 (''application_name'', AString ''app''), (''host'', AString ''localhost''),
                 (''hashtags'', AString '''')]]\<rparr>)
         \<and> InfoKV X init Background ''up'' [] =
             Inr (init\<lparr>stdout := [JSONLine
                [(''severity'', AString ''info''), (''timestamp'', ATime),
                 (''message'', AString ''up''), (''version'', AString ''0.0.0''),
                 (''application_name'', AString ''app''), (''host'', AString ''localhost'')]]\<rparr>)"
proof -
  let ?c = "WithValue ctx loggerContextTags (TagsVal nil_slice)"
  have c: "carried ?c = Some nil_slice" by (rule carried_WithTags)
  have e: "prepareTags (slice_elems (heap w) nil_slice) = ''''"
    by (simp add: slice_elems_def nil_slice_def prepareTags_def)
  have derived: "ContextWithTags_of grow w ctx [] = (w, ?c)"
    by (rule ContextWithTags_of_Nil [OF assms])
  have t: "tags_of w ?c = Some []"
    by (simp add: tags_of_def slice_elems_def nil_slice_def)
  have kv: "emitKV lvl X w ?c m k =
      Sugared_printw X (FromContext w ctx) lvl m (k @ [AString ''hashtags'', AString '''']) w" for m k
    by (simp add: emitKV_tagged [OF c] e FromContext_WithTags)
  have bg: "carried Background = None" by (simp add: carried_def)
  have r: "FromContext init Background = Some (New (Some level) defaultCfg [])"
    by (simp add: FromContext_def init_fields)
  have ex1: "InfoKV X init (snd (ContextWithTags_of grow init Background [])) ''up'' [] =
             Inr (init\<lparr>stdout := [JSONLine
                [(''severity'', AString ''info''), (''timestamp'', ATime),
                 (''message'', AString ''up''), (''version'', AString ''0.0.0''),
                 (''application_name'', AString ''app''), (''host'', AString ''localhost''),
                 (''hashtags'', AString '''')]]\<rparr>)"
    unfolding InfoKV_def ContextWithTags_of_Nil [OF bg]
    by (simp add: emitKV_tagged [OF carried_WithTags] slice_elems_def nil_slice_def
        prepareTags_def FromContext_WithTags InfoKV_default_logger [OF r] zap_Any_def
        init_fields)
  have ex2: "InfoKV X init Background ''up'' [] =
             Inr (init\<lparr>stdout := [JSONLine
                [(''severity'', AString ''info''), (''timestamp'', ATime),
                 (''message'', AString ''up''), (''version'', AString ''0.0.0''),
                 (''application_name'', AString ''app''), (''host'', AString ''localhost'')]]\<rparr>)"
    unfolding InfoKV_def
    by (simp add: emitKV_untagged [OF bg] InfoKV_default_logger [OF r] init_fields)
  show ?thesis
    unfolding derived
    using c t kv emit_tagged [OF c, of lvl X w args] emitf_tagged [OF c, of lvl X w format args]
      emitKV_untagged [OF assms] emit_untagged [OF assms] emitf_untagged [OF assms] ex1 ex2
    by (simp add: e)
qed

theorem C10_zero_tags_attach_empty_list_witness:
  "carried Background = None
   \<and> ContextWithTags_of doubling init Background [] =
       (init, WithValue Background loggerContextTags (TagsVal nil_slice))
   \<and> ErrorKV stock init (WithValue Background loggerContextTags (TagsVal nil_slice)) ''down''
        [AString ''code'', AInt 503]
      = Sugared_printw stock (Some (New (Some level) defaultCfg [])) ErrorLevel ''down''
          [AString ''code'', AInt 503, AString ''hashtags'', AString ''''] init
   \<and> ErrorKV stock init Background ''down'' [AString ''code'', AInt 503]
      = Sugared_printw stock (Some (New (Some level) defaultCfg [])) ErrorLevel ''down''
          [AString ''code'', AInt 503] init"
proof -
  let ?c = "WithValue Background loggerContextTags (TagsVal nil_slice)"
  have h: "carried Background = None" by (simp add: carried_def)
  have r: "FromContext init Background = Some (New (Some level) defaultCfg [])"
    by (simp add: FromContext_def init_fields)
  note th = C10_zero_tags_attach_empty_list [OF h, where grow = doubling and w = init
      and lvl = ErrorLevel and X = stock and msg = "''down''"
      and kvs = "[AString ''code'', AInt 503]"]
  have d: "ContextWithTags_of doubling init Background [] = (init, ?c)"
    by (rule ContextWithTags_of_Nil [OF h])
  from th have a: "emitKV ErrorLevel stock init ?c ''down'' [AString ''code'', AInt 503] =
      Sugared_printw stock (FromContext init Background) ErrorLevel ''down''
        ([AString ''code'', AInt 503] @ [AString ''hashtags'', AString []]) init"
    unfolding d by simp
  from th have b: "emitKV ErrorLevel stock init Background ''down'' [AString ''code'', AInt 503] =
      Sugared_printw stock (FromContext init Background) ErrorLevel ''down''
        [AString ''code'', AInt 503] init"
    by simp
  show ?thesis
    unfolding ErrorKV_def a b r using h d by simp
qed

section \<open>Attaching fields to the logger of a context\<close>

lemma pairs_of_index:
  "pairs_of kvs = map (\<lambda>i. (kvs ! (2 * i), kvs ! Suc (2 * i))) [0..<length kvs div 2]"
proof (induction kvs rule: pairs_of.induct)
  case (1 k v rest)
  have "[0..<Suc (length rest div 2)] = 0 # map Suc [0..<length rest div 2]"
    by (simp add: upt_conv_Cons map_Suc_upt del: upt_Suc)
  then show ?case
    using 1 by (simp add: comp_def del: upt_Suc)
qed simp_all

lemma valid_fields_pairs:
  "valid_fields kvs =
     concat (map (\<lambda>(k, v). case as_string k of Some key \<Rightarrow> [(key, v)] | None \<Rightarrow> [])
               (pairs_of kvs))"
  by (simp add: valid_fields_def pairs_of_index comp_def)

lemma invalid_positions_pairs:
  "length (invalid_positions kvs) =
     length (filter (\<lambda>(k, v). as_string k = None) (pairs_of kvs))"
  by (simp add: invalid_positions_def pairs_of_index filter_map comp_def)

lemma pairs_of_snoc:
  "even (length kvs) \<Longrightarrow> pairs_of (kvs @ [x]) = pairs_of kvs"
  by (induction kvs rule: pairs_of.induct) simp_all

lemma Logger_log_Warn:
  "Logger_log l WarnLevel msg flds w =
     Inr (w\<lparr>stdout := stdout w @
        (if Core_Enabled (core l) WarnLevel
         then [Core_Write (core l) \<lparr>Level = WarnLevel, Message = msg\<rparr> flds] else [])\<rparr>)"
  by (simp add: Logger_log_def Let_def levels_distinct Check_cases)

lemma ContextWithKV_loop_eq:
  "ContextWithKV_loop X l kvs result w =
     Inr (result @ valid_fields kvs,
          w\<lparr>stdout := stdout w @
             concat (replicate (length (invalid_positions kvs)) (invalid_key_warning X l))\<rparr>)"
proof (induction X l kvs result w rule: ContextWithKV_loop.induct)
  case (1 X l result w)
  show ?case by (simp add: valid_fields_pairs invalid_positions_pairs)
next
  case (2 X l x result w)
  show ?case by (simp add: valid_fields_pairs invalid_positions_pairs)
next
  case (3 X l k v rest result w)
  show ?case
  proof (cases "as_string k")
    case None
    then show ?thesis
      using 3(1) [OF None Logger_log_Warn]
      by (simp add: Logger_log_Warn valid_fields_pairs invalid_positions_pairs
          invalid_key_warning_def)
  next
    case (Some key)
    then show ?thesis
      using 3(2) [OF Some]
      by (simp add: valid_fields_pairs invalid_positions_pairs zap_Any_def)
  qed
qed

lemma ContextWithKV_eq:
  "FromContext w ctx = Some l \<Longrightarrow>
   ContextWithKV X w ctx kvs =
     Inr (w\<lparr>stdout := stdout w @
             concat (replicate (length (invalid_positions kvs)) (invalid_key_warning X l))\<rparr>,
          ToContext ctx (Some (Logger_With l (valid_fields kvs))))"
  by (simp add: ContextWithKV_def Desugar_def Sugar_def ContextWithKV_loop_eq Let_def)

text \<open>
  Claim C5, as the code has it. For every key-value list, on a context that resolves to
  a logger \<open>l\<close> that is not nil: \<open>ContextWithKV\<close> returns normally; the derived
  context carries \<open>l\<close> with the fields of the pairs whose key is a string, in order,
  added to the fields of \<open>l\<close>; for every pair whose key is not a string one warning
  goes through \<open>l\<close> (a record at level \<open>warn\<close> when \<open>l\<close> admits that level) and
  nothing else is written; the last element of a list of odd length belongs to no pair
  and changes neither the fields nor the warnings.
\<close>

theorem C5_ContextWithKV_tolerates_malformed_lists:
  assumes "FromContext w ctx = Some l"
  shows "ContextWithKV X w ctx kvs =
           Inr (w\<lparr>stdout := stdout w @
                   concat (replicate (length (invalid_positions kvs)) (invalid_key_warning X l))\<rparr>,
                ToContext ctx (Some (Logger_With l (valid_fields kvs))))
         \<and> FromContext w' (ToContext ctx (Some (Logger_With l (valid_fields kvs))))
             = Some (Logger_With l (valid_fields kvs))
         \<and> Core_fields (core (Logger_With l (valid_fields kvs))) = Core_fields (core l) @ valid_fields kvs
         \<and> (even (length kvs) \<longrightarrow>
              valid_fields (kvs @ [x]) = valid_fields kvs
              \<and> length (invalid_positions (kvs @ [x])) = length (invalid_positions kvs))
         \<and> (Core_Enabled (core l) WarnLevel \<longrightarrow>
              length (concat (replicate (length (invalid_positions kvs)) (invalid_key_warning X l)))
                = length (invalid_positions kvs))"
proof -
  have "length (concat (replicate n (invalid_key_warning X l))) = n"
    if "Core_Enabled (core l) WarnLevel" for n
    using that by (induction n) (simp_all add: invalid_key_warning_def)
  then show ?thesis
    using ContextWithKV_eq [OF assms]
    by (simp add: FromContext_ToContext Core_fields_Logger_With valid_fields_pairs
        invalid_positions_pairs pairs_of_snoc)
qed

lemma valid_fields_sample:
  "valid_fields [AString ''user'', AInt 7, AInt 3, AString ''x'', AString ''ok'', ABool True,
                 AString ''dangling'']
     = [(''user'', AInt 7), (''ok'', ABool True)]"
  by (simp add: valid_fields_pairs)

lemma invalid_positions_sample:
  "length (invalid_positions [AString ''user'', AInt 7, AInt 3, AString ''x'', AString ''ok'',
                              ABool True, AString ''dangling'']) = 1"
  by (simp add: invalid_positions_pairs)

theorem C5_ContextWithKV_tolerates_malformed_lists_witness:
  "FromContext init Background = Some (New (Some level) defaultCfg [])
   \<and> ContextWithKV stock init Background
        [AString ''user'', AInt 7, AInt 3, AString ''x'', AString ''ok'', ABool True,
         AString ''dangling'']
      = Inr (init\<lparr>stdout := [JSONLine
               [(''severity'', AString ''warn''), (''timestamp'', ATime),
                (''message'', AString ''invalid KVs key ''), (''version'', AString ''0.0.0''),
                (''application_name'', AString ''app''), (''host'', AString ''localhost'')]]\<rparr>,
             ToContext Background
               (Some (Logger_With (New (Some level) defaultCfg [])
                        [(''user'', AInt 7), (''ok'', ABool True)])))
   \<and> even (length [AString ''user'', AInt 7])
   \<and> valid_fields ([AString ''user'', AInt 7] @ [AString ''dangling''])
       = valid_fields [AString ''user'', AInt 7]
   \<and> Core_Enabled (core (New (Some level) defaultCfg [])) WarnLevel"
proof -
  let ?l = "New (Some level) defaultCfg []"
  let ?kvs = "[AString ''user'', AInt 7, AInt 3, AString ''x'', AString ''ok'', ABool True,
               AString ''dangling'']"
  have h: "FromContext init Background = Some ?l"
    by (simp add: FromContext_def init_fields)
  have en: "Core_Enabled (core ?l) WarnLevel"
    by (simp add: New_default Level_Enabled_def sint_levels)
  have warn: "invalid_key_warning stock ?l = [JSONLine
               [(''severity'', AString ''warn''), (''timestamp'', ATime),
                (''message'', AString ''invalid KVs key ''), (''version'', AString ''0.0.0''),
                (''application_name'', AString ''app''), (''host'', AString ''localhost'')]]"
    unfolding invalid_key_warning_def
    by (simp add: New_default Level_Enabled_def sint_levels entry_head_def Level_String_named
        stock_def)
  note th = C5_ContextWithKV_tolerates_malformed_lists [OF h, where X = stock]
  have a: "ContextWithKV stock init Background ?kvs =
      Inr (init\<lparr>stdout := stdout init @
              concat (replicate (length (invalid_positions ?kvs)) (invalid_key_warning stock ?l))\<rparr>,
           ToContext Background (Some (Logger_With ?l (valid_fields ?kvs))))"
    by (rule th [THEN conjunct1])
  have b: "valid_fields ([AString ''user'', AInt 7] @ [AString ''dangling''])
       = valid_fields [AString ''user'', AInt 7]"
    using th [where kvs = "[AString ''user'', AInt 7]" and x = "AString ''dangling''"] by simp
  show ?thesis
    unfolding a valid_fields_sample invalid_positions_sample warn
    using h en b by (simp add: init_fields)
qed

text \<open>
  The claim as the specification states it, for every call and with no error ever
  reaching the caller, fails: \<open>ContextWithKV\<close> calls \<^verbatim>\<open>Desugar\<close> on the resolved
  logger before it looks at the list, and \<open>FromContext\<close> returns nil for a context with
  a nil handle attached and for a nil handle in the registry (see C6). The call then
  panics, on a well-formed list as on any other, and no context is derived.
\<close>

theorem C5_nil_logger_counterexample:
  "ContextWithKV stock init (ToContext Background None) [AString ''user'', AInt 7]
     = Inl NilPointerDereference
   \<and> ContextWithKV stock (SetLogger init None) Background [AString ''user'', AInt 7]
     = Inl NilPointerDereference"
  by (simp add: ContextWithKV_def FromContext_def ToContext_def SetLogger_def)

section \<open>Initialization and live reconfiguration\<close>

lemma safeErrorf_local:
  "safeErrorf X w format args = Inr (w\<lparr>stdout := stdout w @ local_error_log X w format args\<rparr>)"
  by (cases "Logger w")
    (simp_all add: safeErrorf_def local_error_log_def Sugared_printf_def Sugared_log_def
      Logger_log_def Let_def levels_distinct Check_cases)

lemma InitLogger_parse_failure:
  "InitWithPrefix X pfx = Inr c \<Longrightarrow> UnmarshalText X (LogLevel c) = Inl err \<Longrightarrow>
   InitLogger X w pfx version =
     (w, Some (Sprintf X ''failed to unmurshal log level: %s; err: %v''
                 [AString (LogLevel c), AError err]))"
  by (simp add: InitLogger_def zapLevelFromString_def)

lemma onConfigChange_not_string:
  "as_string newVal = None \<Longrightarrow>
   onConfigChange X version (w, cfg) newVal =
     Inr (w\<lparr>stdout := stdout w @
            local_error_log X w ''Failed to cast newVal to string, got type %T'' [newVal]\<rparr>, cfg)"
  by (simp add: onConfigChange_def safeErrorf_local)

lemma onConfigChange_parse_failure:
  "as_string newVal = Some s \<Longrightarrow> UnmarshalText X s = Inl err \<Longrightarrow>
   onConfigChange X version (w, cfg) newVal =
     Inr (w\<lparr>stdout := stdout w @
            local_error_log X w ''Failed to unmarshal log level: %s; err: %v''
              [AString s, AError err]\<rparr>, cfg)"
  by (simp add: onConfigChange_def zapLevelFromString_def safeErrorf_local)

lemma onConfigChange_valid:
  "as_string newVal = Some s \<Longrightarrow> UnmarshalText X s = Inr lvl \<Longrightarrow>
   onConfigChange X version (w, cfg) newVal =
     Inr (SetLogger w (Some (New (Some (AtomicLevel lvl)) (cfg\<lparr>Version := version\<rparr>) [])),
          cfg\<lparr>Version := version\<rparr>)"
  by (simp add: onConfigChange_def zapLevelFromString_def Let_def)

text \<open>
  Claim C7. When the parser rejects the configured severity string, \<open>InitLogger\<close>
  returns an error and the process state, the registry's handle included, is the one it
  was given. The callback that \<open>WatchAndRebuildLogger\<close> registers, on a value that is
  not a string or on a string the parser rejects, returns the settings as they were and
  a process state that differs only by what \<open>safeErrorf\<close> wrote through the registry's
  own logger, so the registry's handle is the previous one; on a string the parser
  accepts, it sets the version field of the settings and stores in the registry the
  handle built by \<open>New\<close> from the parsed level and the patched settings.
\<close>

theorem C7_invalid_level_is_rejected:
  "(InitWithPrefix X pfx = Inr c \<and> UnmarshalText X (LogLevel c) = Inl err \<longrightarrow>
      InitLogger X w pfx version =
        (w, Some (Sprintf X ''failed to unmurshal log level: %s; err: %v''
                    [AString (LogLevel c), AError err])))
   \<and> snd (WatchAndRebuildLogger X pfx version) = onConfigChange X version
   \<and> (as_string newVal = None \<longrightarrow>
        onConfigChange X version (w, cfg) newVal =
          Inr (w\<lparr>stdout := stdout w @
                 local_error_log X w ''Failed to cast newVal to string, got type %T'' [newVal]\<rparr>,
               cfg))
   \<and> (as_string newVal = Some s \<and> UnmarshalText X s = Inl err \<longrightarrow>
        onConfigChange X version (w, cfg) newVal =
          Inr (w\<lparr>stdout := stdout w @
                 local_error_log X w ''Failed to unmarshal log level: %s; err: %v''
                   [AString s, AError err]\<rparr>,
               cfg))
   \<and> Logger (w\<lparr>stdout := stdout w @ written\<rparr>) = Logger w
   \<and> (as_string newVal = Some s \<and> UnmarshalText X s = Inr lvl \<longrightarrow>
        onConfigChange X version (w, cfg) newVal =
          Inr (SetLogger w (Some (New (Some (AtomicLevel lvl)) (cfg\<lparr>Version := version\<rparr>) [])),
               cfg\<lparr>Version := version\<rparr>)
        \<and> Logger (SetLogger w (Some (New (Some (AtomicLevel lvl)) (cfg\<lparr>Version := version\<rparr>) [])))
            = Some (New (Some (AtomicLevel lvl)) (cfg\<lparr>Version := version\<rparr>) []))"
  using InitLogger_parse_failure onConfigChange_not_string onConfigChange_parse_failure
    onConfigChange_valid
  by (simp add: WatchAndRebuildLogger_def Logger_def SetLogger_def)

lemma unmarshal_samples:
  "zap_UnmarshalText ''verbose'' = Inl ''unrecognized level: verbose''"
  "zap_UnmarshalText ''warn'' = Inr WarnLevel"
  by (simp_all add: zap_UnmarshalText_def level_of_token_def ToLower_def)

theorem C7_invalid_level_is_rejected_witness:
  "InitWithPrefix (stock\<lparr>InitWithPrefix := \<lambda>pfx. Inr (defaultCfg\<lparr>LogLevel := ''verbose''\<rparr>)\<rparr>) ''APP''
     = Inr (defaultCfg\<lparr>LogLevel := ''verbose''\<rparr>)
   \<and> UnmarshalText (stock\<lparr>InitWithPrefix := \<lambda>pfx. Inr (defaultCfg\<lparr>LogLevel := ''verbose''\<rparr>)\<rparr>)
        (LogLevel (defaultCfg\<lparr>LogLevel := ''verbose''\<rparr>)) = Inl ''unrecognized level: verbose''
   \<and> InitLogger (stock\<lparr>InitWithPrefix := \<lambda>pfx. Inr (defaultCfg\<lparr>LogLevel := ''verbose''\<rparr>)\<rparr>)
        init ''APP'' ''1.4.0''
      = (init, Some ''failed to unmurshal log level: verbose; err: unrecognized level: verbose'')
   \<and> as_string (AInt 3) = None
   \<and> onConfigChange stock ''1.4.0'' (init, defaultCfg) (AInt 3) =
        Inr (init\<lparr>stdout := [JSONLine
               [(''severity'', AString ''error''), (''timestamp'', ATime),
                (''message'', AString ''Failed to cast newVal to string, got type int''),
                (''version'', AString ''0.0.0''), (''application_name'', AString ''app''),
                (''host'', AString ''localhost'')]]\<rparr>, defaultCfg)
   \<and> as_string (AString ''verbose'') = Some ''verbose''
   \<and> UnmarshalText stock ''verbose'' = Inl ''unrecognized level: verbose''
   \<and> onConfigChange stock ''1.4.0'' (init, defaultCfg) (AString ''verbose'') =
        Inr (init\<lparr>stdout := [JSONLine
               [(''severity'', AString ''error''), (''timestamp'', ATime),
                (''message'', AString
                   ''Failed to unmarshal log level: verbose; err: unrecognized level: verbose''),
                (''version'', AString ''0.0.0''), (''application_name'', AString ''app''),
                (''host'', AString ''localhost'')]]\<rparr>, defaultCfg)
   \<and> as_string (AString ''warn'') = Some ''warn''
   \<and> UnmarshalText stock ''warn'' = Inr WarnLevel
   \<and> onConfigChange stock ''1.4.0'' (init, defaultCfg) (AString ''warn'') =
        Inr (SetLogger init
               (Some (New (Some (AtomicLevel WarnLevel)) (defaultCfg\<lparr>Version := ''1.4.0''\<rparr>) [])),
             defaultCfg\<lparr>Version := ''1.4.0''\<rparr>)"
proof -
  let ?X = "stock\<lparr>InitWithPrefix := \<lambda>pfx. Inr (defaultCfg\<lparr>LogLevel := ''verbose''\<rparr>)\<rparr>"
  let ?c = "defaultCfg\<lparr>LogLevel := ''verbose''\<rparr>"
  have h1: "InitWithPrefix ?X ''APP'' = Inr ?c" by simp
  have h2: "UnmarshalText ?X (LogLevel ?c) = Inl ''unrecognized level: verbose''"
    by (simp add: stock_def unmarshal_samples)
  have h3: "as_string (AInt 3) = None" by simp
  have h4: "as_string (AString ''verbose'') = Some ''verbose''" by simp
  have h5: "UnmarshalText stock ''verbose'' = Inl ''unrecognized level: verbose''"
    by (simp add: stock_def unmarshal_samples)
  have h6: "as_string (AString ''warn'') = Some ''warn''" by simp
  have h7: "UnmarshalText stock ''warn'' = Inr WarnLevel"
    by (simp add: stock_def unmarshal_samples)
  have en: "Core_Enabled (core (New (Some level) defaultCfg [])) ErrorLevel"
    by (simp add: New_default Level_Enabled_def sint_levels)
  have log: "local_error_log stock init format args =
      [JSONLine [(''severity'', AString ''error''), (''timestamp'', ATime),
                 (''message'', AString (getMessage stock format args)),
                 (''version'', AString ''0.0.0''), (''application_name'', AString ''app''),
                 (''host'', AString ''localhost'')]]" for format args
    using en unfolding local_error_log_def
    by (simp add: Logger_def init_fields New_default entry_head_def Level_String_named)
  have m1: "getMessage stock ''Failed to cast newVal to string, got type %T'' [AInt 3]
      = ''Failed to cast newVal to string, got type int''"
    by (simp add: getMessage_def stock_def)
  have m2: "getMessage stock ''Failed to unmarshal log level: %s; err: %v''
        [AString ''verbose'', AError ''unrecognized level: verbose'']
      = ''Failed to unmarshal log level: verbose; err: unrecognized level: verbose''"
    by (simp add: getMessage_def stock_def)
  have m3: "Sprintf ?X ''failed to unmurshal log level: %s; err: %v''
        [AString (LogLevel ?c), AError ''unrecognized level: verbose'']
      = ''failed to unmurshal log level: verbose; err: unrecognized level: verbose''"
    by (simp add: stock_def)
  note a = C7_invalid_level_is_rejected [where X = ?X and pfx = "''APP''" and c = ?c
      and err = "''unrecognized level: verbose''" and w = init and version = "''1.4.0''"]
  note b = C7_invalid_level_is_rejected [where X = stock and newVal = "AInt 3" and w = init
      and cfg = defaultCfg and version = "''1.4.0''"]
  note c = C7_invalid_level_is_rejected [where X = stock and newVal = "AString ''verbose''"
      and s = "''verbose''" and err = "''unrecognized level: verbose''" and w = init
      and cfg = defaultCfg and version = "''1.4.0''"]
  note d = C7_invalid_level_is_rejected [where X = stock and newVal = "AString ''warn''"
      and s = "''warn''" and lvl = WarnLevel and w = init and cfg = defaultCfg
      and version = "''1.4.0''"]
  have r1: "InitLogger ?X init ''APP'' ''1.4.0'' =
      (init, Some ''failed to unmurshal log level: verbose; err: unrecognized level: verbose'')"
    using a h1 h2 unfolding m3 [symmetric] by blast
  have r2: "onConfigChange stock ''1.4.0'' (init, defaultCfg) (AInt 3) =
      Inr (init\<lparr>stdout := stdout init @
             local_error_log stock init ''Failed to cast newVal to string, got type %T'' [AInt 3]\<rparr>,
           defaultCfg)"
    using b h3 by blast
  have r3: "onConfigChange stock ''1.4.0'' (init, defaultCfg) (AString ''verbose'') =
      Inr (init\<lparr>stdout := stdout init @
             local_error_log stock init ''Failed to unmarshal log level: %s; err: %v''
               [AString ''verbose'', AError ''unrecognized level: verbose'']\<rparr>,
           defaultCfg)"
    using c h4 h5 by blast
  have r4: "onConfigChange stock ''1.4.0'' (init, defaultCfg) (AString ''warn'') =
        Inr (SetLogger init
               (Some (New (Some (AtomicLevel WarnLevel)) (defaultCfg\<lparr>Version := ''1.4.0''\<rparr>) [])),
             defaultCfg\<lparr>Version := ''1.4.0''\<rparr>)"
    using d h6 h7 by blast
  show ?thesis
    unfolding r1 r2 r3 r4 log m1 m2
    using h1 h2 h3 h4 h5 h6 h7 by (simp add: init_fields)
qed

section \<open>Sibling contexts and the storage of their tags\<close>

lemma InfoKV_tagged_default_logger:
  assumes "carried ctx = Some s" and "FromContext w ctx = Some (New (Some level) defaultCfg [])"
    and "stdout w = []"
  shows "InfoKV X w ctx msg [] =
     Inr (w\<lparr>stdout := [JSONLine
            [(''severity'', AString ''info''), (''timestamp'', ATime), (''message'', AString msg),
             (''version'', AString ''0.0.0''), (''application_name'', AString ''app''),
             (''host'', AString ''localhost''),
             (''hashtags'', AString (prepareTags (slice_elems (heap w) s)))]]\<rparr>)"
  unfolding InfoKV_def
  by (simp add: emitKV_tagged [OF assms(1)] InfoKV_default_logger [OF assms(2)] assms(3)
      zap_Any_def)

text \<open>
  Claim C1 fails on the code. \<open>ContextWithTags\<close> builds the child's list with
  \<^verbatim>\<open>append(v, tags...)\<close> on the parent's slice \<open>v\<close>. When \<open>v\<close> has spare capacity,
  the new tags are written into the parent's backing array, and the child's slice views
  that same array; a second child derived from the same parent writes its tags over
  those of the first. Two runs show it.

  First run, with the capacities the runtime gives (doubling): the contexts derived by
  \<^verbatim>\<open>ContextWithTags(ctx, "a")\<close>, then \<^verbatim>\<open>"b"\<close>, then \<^verbatim>\<open>"c"\<close> end with a slice of
  length 3 and capacity 4. The sibling \<open>sa\<close> derived from it with \<^verbatim>\<open>"x"\<close> reads
  \<open>a b c x\<close>; once the sibling \<open>sb\<close> is derived from the same parent with \<^verbatim>\<open>"y"\<close>,
  both \<open>sa\<close> and \<open>sb\<close> read \<open>a b c y\<close>, and emitting through \<open>sa\<close> renders
  \<open>#a #b #c #y \<close>.

  Second run, whatever the growth of capacities: the parent is derived from a slice of
  the caller with length 1 and capacity 2, passed as \<^verbatim>\<open>tags...\<close>.
\<close>

theorem C1_sibling_tags_overwritten:
  "(let (w1, c1) = ContextWithTags_of doubling init Background [''a''];
        (w2, c2) = ContextWithTags_of doubling w1 c1 [''b''];
        (w3, c3) = ContextWithTags_of doubling w2 c2 [''c''];
        (w4, sa) = ContextWithTags_of doubling w3 c3 [''x''];
        (w5, sb) = ContextWithTags_of doubling w4 c3 [''y'']
    in tags_of w4 sa = Some [''a'', ''b'', ''c'', ''x'']
       \<and> tags_of w5 sa = Some [''a'', ''b'', ''c'', ''y'']
       \<and> tags_of w5 sb = Some [''a'', ''b'', ''c'', ''y'']
       \<and> InfoKV X w5 sa ''hello'' [] =
           Inr (w5\<lparr>stdout := [JSONLine
              [(''severity'', AString ''info''), (''timestamp'', ATime),
               (''message'', AString ''hello''), (''version'', AString ''0.0.0''),
               (''application_name'', AString ''app''), (''host'', AString ''localhost''),
               (''hashtags'', AString ''#a #b #c #y '')]]\<rparr>))
   \<and> (let (w1, p) = ContextWithTags grow (init\<lparr>heap := [[''svc'', '''']]\<rparr>) Background
                        \<lparr>ptr = Some 0, off = 0, len = 1, cap = 2\<rparr>;
            (w2, sa) = ContextWithTags_of grow w1 p [''x''];
            (w3, sb) = ContextWithTags_of grow w2 p [''y'']
        in tags_of w2 sa = Some [''svc'', ''x'']
           \<and> tags_of w3 sa = Some [''svc'', ''y'']
           \<and> tags_of w3 sb = Some [''svc'', ''y''])"
proof -
  let ?s1 = "\<lparr>ptr = Some 0, off = 0, len = 1, cap = 1\<rparr>"
  let ?s2 = "\<lparr>ptr = Some 2, off = 0, len = 2, cap = 2\<rparr>"
  let ?s3 = "\<lparr>ptr = Some 4, off = 0, len = 3, cap = 4\<rparr>"
  let ?s4 = "\<lparr>ptr = Some 4, off = 0, len = 4, cap = 4\<rparr>"
  let ?c1 = "WithValue Background loggerContextTags (TagsVal ?s1)"
  let ?c2 = "WithValue ?c1 loggerContextTags (TagsVal ?s2)"
  let ?c3 = "WithValue ?c2 loggerContextTags (TagsVal ?s3)"
  let ?sib = "WithValue ?c3 loggerContextTags (TagsVal ?s4)"
  let ?h1 = "[[''a'']]"
  let ?h2 = "[[''a''], [''b''], [''a'', ''b'']]"
  let ?h3 = "[[''a''], [''b''], [''a'', ''b''], [''c''], [''a'', ''b'', ''c'', '''']]"
  let ?h4 = "[[''a''], [''b''], [''a'', ''b''], [''c''], [''a'', ''b'', ''c'', ''x''], [''x'']]"
  let ?h5 = "[[''a''], [''b''], [''a'', ''b''], [''c''], [''a'', ''b'', ''c'', ''y''], [''x''],
              [''y'']]"
  have d1: "ContextWithTags_of doubling init Background [''a''] = (init\<lparr>heap := ?h1\<rparr>, ?c1)"
    by (simp add: ContextWithTags_of_def ContextWithTags_def variadic_def init_fields)
  have d2: "ContextWithTags_of doubling (init\<lparr>heap := ?h1\<rparr>) ?c1 [''b'']
      = (init\<lparr>heap := ?h2\<rparr>, ?c2)"
    by (simp add: ContextWithTags_of_def ContextWithTags_def variadic_def go_append_def
        slice_elems_def doubling_def Let_def)
  have d3: "ContextWithTags_of doubling (init\<lparr>heap := ?h2\<rparr>) ?c2 [''c'']
      = (init\<lparr>heap := ?h3\<rparr>, ?c3)"
    by (simp add: ContextWithTags_of_def ContextWithTags_def variadic_def go_append_def
        slice_elems_def doubling_def Let_def)
  have d4: "ContextWithTags_of doubling (init\<lparr>heap := ?h3\<rparr>) ?c3 [''x'']
      = (init\<lparr>heap := ?h4\<rparr>, ?sib)"
    by (simp add: ContextWithTags_of_def ContextWithTags_def variadic_def go_append_def
        slice_elems_def doubling_def Let_def write_at_def numeral_eq_Suc)
  have d5: "ContextWithTags_of doubling (init\<lparr>heap := ?h4\<rparr>) ?c3 [''y'']
      = (init\<lparr>heap := ?h5\<rparr>, ?sib)"
    by (simp add: ContextWithTags_of_def ContextWithTags_def variadic_def go_append_def
        slice_elems_def doubling_def Let_def write_at_def numeral_eq_Suc)
  have t4: "tags_of (init\<lparr>heap := ?h4\<rparr>) ?sib = Some [''a'', ''b'', ''c'', ''x'']"
    by (simp add: tags_of_def slice_elems_def numeral_eq_Suc)
  have t5: "tags_of (init\<lparr>heap := ?h5\<rparr>) ?sib = Some [''a'', ''b'', ''c'', ''y'']"
    by (simp add: tags_of_def slice_elems_def numeral_eq_Suc)
  have p5: "prepareTags (slice_elems (heap (init\<lparr>heap := ?h5\<rparr>)) ?s4) = ''#a #b #c #y ''"
    by (simp add: slice_elems_def numeral_eq_Suc prepareTags_spec render_tags_spec_def
        render_tag_def strip_spaces_def)
  have r5: "FromContext (init\<lparr>heap := ?h5\<rparr>) ?sib = Some (New (Some level) defaultCfg [])"
    by (simp add: FromContext_def init_fields)
  have e5: "InfoKV X (init\<lparr>heap := ?h5\<rparr>) ?sib ''hello'' [] =
      Inr (init\<lparr>heap := ?h5, stdout := [JSONLine
              [(''severity'', AString ''info''), (''timestamp'', ATime),
               (''message'', AString ''hello''), (''version'', AString ''0.0.0''),
               (''application_name'', AString ''app''), (''host'', AString ''localhost''),
               (''hashtags'', AString ''#a #b #c #y '')]]\<rparr>)"
  proof -
    have st: "stdout (init\<lparr>heap := ?h5\<rparr>) = []" by (simp add: init_fields)
    show ?thesis
      unfolding InfoKV_tagged_default_logger [OF carried_WithTags r5 st] p5 by simp
  qed
  have first: "(let (w1, c1) = ContextWithTags_of doubling init Background [''a''];
        (w2, c2) = ContextWithTags_of doubling w1 c1 [''b''];
        (w3, c3) = ContextWithTags_of doubling w2 c2 [''c''];
        (w4, sa) = ContextWithTags_of doubling w3 c3 [''x''];
        (w5, sb) = ContextWithTags_of doubling w4 c3 [''y'']
    in tags_of w4 sa = Some [''a'', ''b'', ''c'', ''x'']
       \<and> tags_of w5 sa = Some [''a'', ''b'', ''c'', ''y'']
       \<and> tags_of w5 sb = Some [''a'', ''b'', ''c'', ''y'']
       \<and> InfoKV X w5 sa ''hello'' [] =
           Inr (w5\<lparr>stdout := [JSONLine
              [(''severity'', AString ''info''), (''timestamp'', ATime),
               (''message'', AString ''hello''), (''version'', AString ''0.0.0''),
               (''application_name'', AString ''app''), (''host'', AString ''localhost''),
               (''hashtags'', AString ''#a #b #c #y '')]]\<rparr>))"
    unfolding d1 Let_def prod.case d2 d3 d4 d5 t4 t5 e5 by simp
  let ?p = "WithValue Background loggerContextTags (TagsVal \<lparr>ptr = Some 0, off = 0, len = 1, cap = 2\<rparr>)"
  let ?q = "WithValue ?p loggerContextTags (TagsVal \<lparr>ptr = Some 0, off = 0, len = 2, cap = 2\<rparr>)"
  have g1: "ContextWithTags grow (init\<lparr>heap := [[''svc'', '''']]\<rparr>) Background
              \<lparr>ptr = Some 0, off = 0, len = 1, cap = 2\<rparr>
      = (init\<lparr>heap := [[''svc'', '''']]\<rparr>, ?p)"
    by (simp add: ContextWithTags_def)
  have g2: "ContextWithTags_of grow (init\<lparr>heap := [[''svc'', '''']]\<rparr>) ?p [''x'']
      = (init\<lparr>heap := [[''svc'', ''x''], [''x'']]\<rparr>, ?q)"
    by (simp add: ContextWithTags_of_def ContextWithTags_def variadic_def go_append_def
        slice_elems_def Let_def write_at_def numeral_eq_Suc)
  have g3: "ContextWithTags_of grow (init\<lparr>heap := [[''svc'', ''x''], [''x'']]\<rparr>) ?p [''y'']
      = (init\<lparr>heap := [[''svc'', ''y''], [''x''], [''y'']]\<rparr>, ?q)"
    by (simp add: ContextWithTags_of_def ContextWithTags_def variadic_def go_append_def
        slice_elems_def Let_def write_at_def numeral_eq_Suc)
  have second: "(let (w1, p) = ContextWithTags grow (init\<lparr>heap := [[''svc'', '''']]\<rparr>) Background
                        \<lparr>ptr = Some 0, off = 0, len = 1, cap = 2\<rparr>;
            (w2, sa) = ContextWithTags_of grow w1 p [''x''];
            (w3, sb) = ContextWithTags_of grow w2 p [''y'']
        in tags_of w2 sa = Some [''svc'', ''x'']
           \<and> tags_of w3 sa = Some [''svc'', ''y'']
           \<and> tags_of w3 sb = Some [''svc'', ''y''])"
    unfolding g1 Let_def prod.case g2 g3
    by (simp add: tags_of_def slice_elems_def numeral_eq_Suc)
  from first second show ?thesis by blast
qed

section \<open>Accesses to the registry's variable\<close>

text \<open>
  Claim C9 fails on the code: the read of \<open>global\<close> in \<open>FromContext\<close> is not under the
  lock that \<open>Logger\<close> takes for the same read. With one thread in \<open>FromContext\<close> and
  one in \<open>SetLogger\<close>, after the writer has taken the lock both threads are about to
  access the variable, one of them writing: a data race. Both orders of the two
  accesses are runs of the program.
\<close>

theorem C9_FromContext_reads_without_lock:
  "run [1] (start [FromContext_accesses, SetLogger_accesses])
     = Some \<lparr>readers = 0, writer = True, threads = [[ReadGlobal], [WriteGlobal, Unlock]]\<rparr>
   \<and> race \<lparr>readers = 0, writer = True, threads = [[ReadGlobal], [WriteGlobal, Unlock]]\<rparr>
   \<and> run [1, 0, 1, 1] (start [FromContext_accesses, SetLogger_accesses])
       = Some \<lparr>readers = 0, writer = False, threads = [[], []]\<rparr>
   \<and> run [1, 1, 0, 1] (start [FromContext_accesses, SetLogger_accesses])
       = Some \<lparr>readers = 0, writer = False, threads = [[], []]\<rparr>
   \<and> \<not> race (start [FromContext_accesses, SetLogger_accesses])"
  by (simp add: start_def FromContext_accesses_def SetLogger_accesses_def step_def race_def
      about_to_def)

section \<open>What the tag derivation does guarantee\<close>

lemma length_slice_elems:
  "valid_slice h s \<Longrightarrow> length (slice_elems h s) = len s"
  by (auto simp: valid_slice_def slice_elems_def split: option.splits)

lemma drop_write_at:
  assumes "p + length ys \<le> length xs" and "k \<le> p"
  shows "drop k (write_at xs p ys) = take (p - k) (drop k xs) @ ys @ drop (p + length ys) xs"
proof -
  have "length (take p xs) = p" using assms by simp
  then show ?thesis
    using assms by (simp add: write_at_def drop_take)
qed

lemma take_drop_write_at_before:
  assumes "p + length ys \<le> length xs" and "k + n \<le> p"
  shows "take n (drop k (write_at xs p ys)) = take n (drop k xs)"
proof -
  have k: "k \<le> p" and n: "n \<le> p - k" using assms by simp_all
  have l: "length (take (p - k) (drop k xs)) = p - k" using assms by simp
  have "take n (drop k (write_at xs p ys)) = take n (take (p - k) (drop k xs))"
    unfolding drop_write_at [OF assms(1) k] using n l by simp
  also have "\<dots> = take n (drop k xs)"
    using n by (simp add: min_absorb1)
  finally show ?thesis .
qed

lemma take_drop_write_at_through:
  assumes "p + length ys \<le> length xs" and "k \<le> p"
  shows "take (p - k + length ys) (drop k (write_at xs p ys)) = take (p - k) (drop k xs) @ ys"
proof -
  have l: "length (take (p - k) (drop k xs)) = p - k" using assms by simp
  show ?thesis
    unfolding drop_write_at [OF assms] using l by simp
qed

lemma length_write_at:
  "p + length ys \<le> length xs \<Longrightarrow> length (write_at xs p ys) = length xs"
  by (simp add: write_at_def)

lemma go_append_in_place:
  assumes "valid_slice h v" and "ptr v = Some a"
    and "len v + length (slice_elems h es) \<le> cap v"
  shows "go_append grow h v es =
           (h[a := write_at (h ! a) (off v + len v) (slice_elems h es)],
            v\<lparr>len := len v + length (slice_elems h es)\<rparr>)"
  using assms by (simp add: go_append_def Let_def)

lemma go_append_result:
  assumes "valid_slice h v" and "go_append grow h v es = (h', r)"
  shows "slice_elems h' r = slice_elems h v @ slice_elems h es
         \<and> slice_elems h' v = slice_elems h v
         \<and> valid_slice h' r \<and> valid_slice h' v"
proof (cases "len v + length (slice_elems h es) \<le> cap v")
  case True
  show ?thesis
  proof (cases "ptr v")
    case None
    then show ?thesis
      using assms True by (auto simp: go_append_def Let_def valid_slice_def slice_elems_def)
  next
    case (Some a)
    let ?es = "slice_elems h es"
    let ?arr = "h ! a"
    have a: "a < length h" and b: "off v + cap v \<le> length ?arr" and c: "len v \<le> cap v"
      using assms(1) Some by (simp_all add: valid_slice_def)
    have fit: "off v + len v + length ?es \<le> length ?arr"
      using True b by linarith
    have h': "h' = h[a := write_at ?arr (off v + len v) ?es]"
      and r: "r = v\<lparr>len := len v + length ?es\<rparr>"
      using assms(2) go_append_in_place [OF assms(1) Some True] by simp_all
    have "take (len v + length ?es) (drop (off v) (write_at ?arr (off v + len v) ?es))
        = take (len v) (drop (off v) ?arr) @ ?es"
      using take_drop_write_at_through [OF fit, of "off v"] by simp
    moreover have "take (len v) (drop (off v) (write_at ?arr (off v + len v) ?es))
        = take (len v) (drop (off v) ?arr)"
      using take_drop_write_at_before [OF fit, of "off v" "len v"] by simp
    ultimately show ?thesis
      using a b c Some True fit
      by (simp add: h' r slice_elems_def valid_slice_def length_write_at)
  qed
next
  case False
  let ?es = "slice_elems h es"
  let ?n = "len v + length ?es"
  let ?c = "max ?n (grow (cap v) ?n)"
  have h': "h' = h @ [slice_elems h v @ ?es @ replicate (?c - ?n) []]"
    and r: "r = \<lparr>ptr = Some (length h), off = 0, len = ?n, cap = ?c\<rparr>"
    using assms(2) False by (simp_all add: go_append_def Let_def)
  have l: "length (slice_elems h v) = len v"
    by (rule length_slice_elems [OF assms(1)])
  have v: "slice_elems h' v = slice_elems h v" "valid_slice h' v"
    using assms(1)
    by (auto simp: h' slice_elems_def valid_slice_def nth_append split: option.splits)
  show ?thesis
    using v l by (simp add: h' r slice_elems_def valid_slice_def)
qed

text \<open>
  What does hold of \<open>ContextWithTags\<close> on a parent that carries a valid slice: the
  parent's own tag list reads the same before and after (the append writes only past
  the parent's length); the child's list, read right after the derivation, is the
  parent's list followed by the new tags, in order, and so is its rendering; the logger
  the context resolves to, the registry and the written records are untouched.
\<close>

theorem ContextWithTags_extends_parent_list:
  assumes "carried ctx = Some v" and "valid_slice (heap w) v"
  shows "(case ContextWithTags grow w ctx tags of
            (w', ctx') \<Rightarrow>
              tags_of w' ctx = tags_of w ctx
              \<and> tags_of w' ctx' = Some (slice_elems (heap w) v @ slice_elems (heap w) tags)
              \<and> map_option prepareTags (tags_of w' ctx')
                  = Some (prepareTags (slice_elems (heap w) v)
                          @ prepareTags (slice_elems (heap w) tags))
              \<and> attached ctx' = attached ctx
              \<and> global w' = global w \<and> stdout w' = stdout w)"
proof -
  obtain h' r where g: "go_append grow (heap w) v tags = (h', r)"
    by (cases "go_append grow (heap w) v tags")
  have c: "as_tags (Value ctx loggerContextTags) = Some v"
    using assms(1) by (simp add: carried_def)
  have d: "ContextWithTags grow w ctx tags
      = (w\<lparr>heap := h'\<rparr>, WithValue ctx loggerContextTags (TagsVal r))"
    by (simp add: ContextWithTags_def c g)
  note res = go_append_result [OF assms(2) g]
  show ?thesis
    unfolding d
    using res c
    by (simp add: tags_of_def attached_def prepareTags_append)
qed

theorem ContextWithTags_extends_parent_list_witness:
  "carried (WithValue Background loggerContextTags (TagsVal \<lparr>ptr = Some 0, off = 0, len = 1, cap = 2\<rparr>))
     = Some \<lparr>ptr = Some 0, off = 0, len = 1, cap = 2\<rparr>
   \<and> valid_slice [[''svc'', ''''], [''x'']] \<lparr>ptr = Some 0, off = 0, len = 1, cap = 2\<rparr>
   \<and> (case ContextWithTags doubling (init\<lparr>heap := [[''svc'', ''''], [''x'']]\<rparr>)
              (WithValue Background loggerContextTags
                 (TagsVal \<lparr>ptr = Some 0, off = 0, len = 1, cap = 2\<rparr>))
              \<lparr>ptr = Some 1, off = 0, len = 1, cap = 1\<rparr> of
         (w', ctx') \<Rightarrow>
           tags_of w' (WithValue Background loggerContextTags
                         (TagsVal \<lparr>ptr = Some 0, off = 0, len = 1, cap = 2\<rparr>)) = Some [''svc'']
           \<and> tags_of w' ctx' = Some [''svc'', ''x''])"
proof -
  let ?v = "\<lparr>ptr = Some 0, off = 0, len = 1, cap = 2\<rparr>"
  let ?c = "WithValue Background loggerContextTags (TagsVal ?v)"
  let ?w = "init\<lparr>heap := [[''svc'', ''''], [''x'']]\<rparr>"
  have h1: "carried ?c = Some ?v" by (simp add: carried_def)
  have h2: "valid_slice (heap ?w) ?v" by (simp add: valid_slice_def)
  have t: "tags_of ?w ?c = Some [''svc'']"
    by (simp add: tags_of_def slice_elems_def)
  have e1: "slice_elems (heap ?w) ?v = [''svc'']"
    and e2: "slice_elems (heap ?w) \<lparr>ptr = Some 1, off = 0, len = 1, cap = 1\<rparr> = [''x'']"
    by (simp_all add: slice_elems_def)
  show ?thesis
    using h1 h2
      ContextWithTags_extends_parent_list [OF h1 h2, where grow = doubling
        and tags = "\<lparr>ptr = Some 1, off = 0, len = 1, cap = 1\<rparr>"]
    unfolding t e1 e2
    by (auto split: prod.splits)
qed

text \<open>
  The plain and the formatted form on a context with a tag list call the key-value form
  with the pair \<open>hashtags\<close>, rendering; the key-value form, on the same context,
  appends the pair again. The handle therefore receives the pair twice, and the record
  written by the default logger has two \<open>hashtags\<close> fields.
\<close>

theorem plain_forms_pass_hashtags_twice:
  assumes "carried ctx = Some s"
  shows "emit lvl X w ctx args =
           Sugared_printw X (FromContext w ctx) lvl (Sprint X args)
             [AString ''hashtags'', AString (prepareTags (slice_elems (heap w) s)),
              AString ''hashtags'', AString (prepareTags (slice_elems (heap w) s))] w
         \<and> emitf lvl X w ctx format args =
             Sugared_printw X (FromContext w ctx) lvl (Sprintf X format args)
               [AString ''hashtags'', AString (prepareTags (slice_elems (heap w) s)),
                AString ''hashtags'', AString (prepareTags (slice_elems (heap w) s))] w"
  by (simp add: emit_tagged [OF assms] emitf_tagged [OF assms] emitKV_tagged [OF assms])

theorem plain_forms_pass_hashtags_twice_witness:
  "carried (WithValue Background loggerContextTags (TagsVal \<lparr>ptr = Some 0, off = 0, len = 1, cap = 1\<rparr>))
     = Some \<lparr>ptr = Some 0, off = 0, len = 1, cap = 1\<rparr>
   \<and> Info stock (init\<lparr>heap := [[''release'']]\<rparr>)
        (WithValue Background loggerContextTags (TagsVal \<lparr>ptr = Some 0, off = 0, len = 1, cap = 1\<rparr>))
        [AString ''started'']
      = Inr (init\<lparr>heap := [[''release'']], stdout := [JSONLine
              [(''severity'', AString ''info''), (''timestamp'', ATime),
               (''message'', AString ''started''), (''version'', AString ''0.0.0''),
               (''application_name'', AString ''app''), (''host'', AString ''localhost''),
               (''hashtags'', AString ''#release ''), (''hashtags'', AString ''#release '')]]\<rparr>)"
proof -
  let ?s = "\<lparr>ptr = Some 0, off = 0, len = 1, cap = 1\<rparr>"
  let ?c = "WithValue Background loggerContextTags (TagsVal ?s)"
  let ?w = "init\<lparr>heap := [[''release'']]\<rparr>"
  have h: "carried ?c = Some ?s" by (simp add: carried_def)
  have t: "prepareTags (slice_elems (heap ?w) ?s) = ''#release ''"
    by (simp add: slice_elems_def prepareTags_release)
  have r: "FromContext ?w ?c = Some (New (Some level) defaultCfg [])"
    by (simp add: FromContext_def init_fields)
  have "Info stock ?w ?c [AString ''started''] =
      Sugared_printw stock (FromContext ?w ?c) InfoLevel (Sprint stock [AString ''started''])
        [AString ''hashtags'', AString (prepareTags (slice_elems (heap ?w) ?s)),
         AString ''hashtags'', AString (prepareTags (slice_elems (heap ?w) ?s))] ?w"
    unfolding Info_def by (rule plain_forms_pass_hashtags_twice [OF h, THEN conjunct1])
  also have "\<dots> = Inr (?w\<lparr>stdout := stdout ?w @ [JSONLine
      ([(''severity'', AString ''info''), (''timestamp'', ATime),
        (''message'', AString (Sprint stock [AString ''started''])),
        (''version'', AString ''0.0.0''), (''application_name'', AString ''app''),
        (''host'', AString ''localhost'')]
       @ sweetenFields [AString ''hashtags'', AString ''#release '',
                        AString ''hashtags'', AString ''#release ''])]\<rparr>)"
    unfolding t by (rule InfoKV_default_logger [OF r])
  finally show ?thesis
    using h by (simp add: zap_Any_def init_fields stock_def)
qed

text \<open>
  The logger and the tag list are independent attachments: \<open>ToContext\<close> leaves the tag
  list of a context as it is, and a tag list attached later leaves the logger.
\<close>

theorem attachments_are_independent:
  "carried (ToContext ctx l) = carried ctx
   \<and> tags_of w (ToContext ctx l) = tags_of w ctx
   \<and> attached (WithValue ctx loggerContextTags (TagsVal s)) = attached ctx
   \<and> FromContext w (WithValue ctx loggerContextTags (TagsVal s)) = FromContext w ctx"
  by (simp add: carried_def tags_of_def ToContext_def attached_def FromContext_def)

section \<open>What the lock does guarantee\<close>

lemma count_update:
  "i < length xs \<Longrightarrow>
   length (filter P (xs[i := y])) + (if P (xs ! i) then 1 else 0)
     = length (filter P xs) + (if P y then 1 else 0)"
proof (induction xs arbitrary: i)
  case Nil
  then show ?case by simp
next
  case (Cons x xs)
  then show ?case by (cases i) auto
qed

lemma list_all_update:
  "list_all P xs \<Longrightarrow> P y \<Longrightarrow> list_all P (xs[i := y])"
  by (induction xs arbitrary: i) (auto split: nat.splits)

lemma count_ge_1:
  "i < length xs \<Longrightarrow> P (xs ! i) \<Longrightarrow> 1 \<le> length (filter P xs)"
  by (metis One_nat_def Suc_leI filter_empty_conv length_greater_0_conv nth_mem)

lemma count_ge_2:
  assumes "i < length xs" "j < length xs" "i \<noteq> j" "P (xs ! i)" "P (xs ! j)"
  shows "2 \<le> length (filter P xs)"
proof -
  have "{i, j} \<subseteq> {k. k < length xs \<and> P (xs ! k)}" using assms by auto
  then have "card {i, j} \<le> card {k. k < length xs \<and> P (xs ! k)}"
    by (intro card_mono) auto
  then show ?thesis
    using assms(3) by (simp add: length_filter_conv_card)
qed

lemma guarded_start:
  "list_all (\<lambda>t. t = Logger_accesses \<or> t = SetLogger_accesses) ts \<Longrightarrow> guarded (start ts)"
proof -
  assume a: "list_all (\<lambda>t. t = Logger_accesses \<or> t = SetLogger_accesses) ts"
  have "filter reading ts = []" "filter writing ts = []"
    using a by (auto simp: filter_empty_conv list_all_iff reading_def writing_def
        Logger_accesses_def SetLogger_accesses_def)
  moreover have "list_all in_phase ts"
    using a by (auto simp: list_all_iff in_phase_def)
  ultimately show ?thesis by (simp add: guarded_def start_def)
qed

lemma guarded_step:
  assumes "guarded m" and "step i m = Some m'"
  shows "guarded m'"
proof -
  from assms(2) obtain a rest where i: "i < length (threads m)"
    and t: "threads m ! i = a # rest" and en: "enabled m a"
    and m': "m' = (perform a m)\<lparr>threads := (threads m)[i := rest]\<rparr>"
    by (auto simp: step_def split: if_splits list.splits)
  have ph: "in_phase (a # rest)"
    using assms(1) i t by (auto simp: guarded_def list_all_length)
  have r: "readers m = length (filter reading (threads m))"
    and wr: "length (filter writing (threads m)) = (if writer m then 1 else 0)"
    and ex: "writer m \<Longrightarrow> readers m = 0"
    and al: "list_all in_phase (threads m)"
    using assms(1) by (auto simp: guarded_def split: if_splits)
  note cr = count_update [OF i, of reading rest, unfolded t]
  note cw = count_update [OF i, of writing rest, unfolded t]
  from ph consider
      "a = RLock" "rest = [ReadGlobal, RUnlock]"
    | "a = ReadGlobal" "rest = [RUnlock]"
    | "a = RUnlock" "rest = []"
    | "a = Lock" "rest = [WriteGlobal, Unlock]"
    | "a = WriteGlobal" "rest = [Unlock]"
    | "a = Unlock" "rest = []"
    by (auto simp: in_phase_def reading_def writing_def Logger_accesses_def
        SetLogger_accesses_def)
  then show ?thesis
  proof cases
    case 1
    then show ?thesis
      using cr cw en r wr ex list_all_update [OF al, of rest i]
      by (auto simp: guarded_def m' reading_def writing_def in_phase_def)
  next
    case 2
    then show ?thesis
      using cr cw en r wr ex list_all_update [OF al, of rest i]
      by (auto simp: guarded_def m' reading_def writing_def in_phase_def)
  next
    case 3
    then show ?thesis
      using cr cw en r wr ex list_all_update [OF al, of rest i]
      by (auto simp: guarded_def m' reading_def writing_def in_phase_def)
  next
    case 4
    then show ?thesis
      using cr cw en r wr ex list_all_update [OF al, of rest i]
      by (auto simp: guarded_def m' reading_def writing_def in_phase_def)
  next
    case 5
    then show ?thesis
      using cr cw en r wr ex list_all_update [OF al, of rest i]
      by (auto simp: guarded_def m' reading_def writing_def in_phase_def)
  next
    case 6
    then show ?thesis
      using cr cw en r wr ex list_all_update [OF al, of rest i]
      by (auto simp: guarded_def m' reading_def writing_def in_phase_def split: if_splits)
  qed
qed

lemma guarded_run:
  "guarded m \<Longrightarrow> run sched m = Some m' \<Longrightarrow> guarded m'"
  by (induction sched arbitrary: m) (auto split: option.splits dest: guarded_step)

lemma guarded_no_race:
  assumes "guarded m"
  shows "\<not> race m"
proof
  assume "race m"
  then obtain i j where i: "i < length (threads m)" and j: "j < length (threads m)"
    and ij: "i \<noteq> j" and wi: "about_to m i WriteGlobal"
    and aj: "about_to m j ReadGlobal \<or> about_to m j WriteGlobal"
    by (auto simp: race_def list_ex_iff)
  have al: "list_all in_phase (threads m)" using assms by (simp add: guarded_def)
  have pi: "in_phase (threads m ! i)" and pj: "in_phase (threads m ! j)"
    using al i j by (auto simp: list_all_length)
  have ti: "writing (threads m ! i)"
    using wi pi
    by (auto simp: about_to_def in_phase_def reading_def writing_def Logger_accesses_def
        SetLogger_accesses_def split: list.splits)
  have w1: "1 \<le> length (filter writing (threads m))"
    using count_ge_1 [where P = writing, OF i ti] .
  then have w: "writer m" and one: "length (filter writing (threads m)) = 1"
    and r0: "length (filter reading (threads m)) = 0"
    using assms by (auto simp: guarded_def split: if_splits)
  from aj show False
  proof
    assume "about_to m j ReadGlobal"
    then have "reading (threads m ! j)"
      using pj
      by (auto simp: about_to_def in_phase_def reading_def writing_def Logger_accesses_def
          SetLogger_accesses_def split: list.splits)
    then have "1 \<le> length (filter reading (threads m))"
      using count_ge_1 [where P = reading, OF j] by simp
    then show False using r0 by simp
  next
    assume "about_to m j WriteGlobal"
    then have "writing (threads m ! j)"
      using pj
      by (auto simp: about_to_def in_phase_def reading_def writing_def Logger_accesses_def
          SetLogger_accesses_def split: list.splits)
    then have "2 \<le> length (filter writing (threads m))"
      using count_ge_2 [where P = writing, OF i j ij ti] by simp
    then show False using one by simp
  qed
qed


text \<open>
  What does hold of the lock: when every thread runs \<open>Logger\<close> or \<open>SetLogger\<close>, in any
  number and under any schedule, no reachable state is a data race on \<open>global\<close>.
\<close>

theorem Logger_and_SetLogger_never_race:
  assumes "list_all (\<lambda>t. t = Logger_accesses \<or> t = SetLogger_accesses) ts"
    and "run sched (start ts) = Some m"
  shows "\<not> race m"
  using guarded_no_race [OF guarded_run [OF guarded_start [OF assms(1)] assms(2)]] .

theorem Logger_and_SetLogger_never_race_witness:
  "list_all (\<lambda>t. t = Logger_accesses \<or> t = SetLogger_accesses)
     [Logger_accesses, SetLogger_accesses, Logger_accesses]
   \<and> run [0, 2, 0] (start [Logger_accesses, SetLogger_accesses, Logger_accesses])
      = Some \<lparr>readers = 2, writer = False,
              threads = [[RUnlock], [Lock, WriteGlobal, Unlock], [ReadGlobal, RUnlock]]\<rparr>
   \<and> \<not> race \<lparr>readers = 2, writer = False,
              threads = [[RUnlock], [Lock, WriteGlobal, Unlock], [ReadGlobal, RUnlock]]\<rparr>
   \<and> step 1 \<lparr>readers = 2, writer = False,
              threads = [[RUnlock], [Lock, WriteGlobal, Unlock], [ReadGlobal, RUnlock]]\<rparr> = None"
proof -
  let ?ts = "[Logger_accesses, SetLogger_accesses, Logger_accesses]"
  let ?m = "\<lparr>readers = 2, writer = False,
              threads = [[RUnlock], [Lock, WriteGlobal, Unlock], [ReadGlobal, RUnlock]]\<rparr>"
  have h1: "list_all (\<lambda>t. t = Logger_accesses \<or> t = SetLogger_accesses) ?ts" by simp
  have h2: "run [0, 2, 0] (start ?ts) = Some ?m"
    by (simp add: start_def Logger_accesses_def SetLogger_accesses_def step_def numeral_2_eq_2)
  have h3: "step 1 ?m = None" by (simp add: step_def)
  show ?thesis
    using h1 h2 h3 Logger_and_SetLogger_never_race [OF h1 h2] by blast
qed

section \<open>Further properties of the factory and of initialization\<close>

text \<open>
  The factory with no enabler uses the package's level, \<open>info\<close>; it picks the console
  encoder exactly in development mode; with no options of the caller the new logger is
  the writer core with that enabler, that encoder and the base fields, and its error
  output is the standard output.
\<close>

theorem New_defaults_and_encoder:
  "New None cfg options = New (Some level) cfg options
   \<and> Core_Enabled (core (New None cfg [])) l = (0 \<le> sint l)
   \<and> errorOutput (New lvl cfg options) = Stdout
   \<and> core (New (Some enab) cfg []) =
       ioCore enab
         (if DevMode cfg
          then ConsoleEncoder \<lparr>EncTimeKey = TimeKey cfg, EncLevelKey = LevelKey cfg,
                 EncNameKey = ''logger'', EncCallerKey = ''caller'',
                 EncMessageKey = MessageKey cfg, EncStacktraceKey = ''stacktrace'',
                 EncodeLevel = LowercaseColorLevelEncoder\<rparr>
          else JSONEncoder \<lparr>EncTimeKey = TimeKey cfg, EncLevelKey = LevelKey cfg,
                 EncNameKey = ''logger'', EncCallerKey = ''caller'',
                 EncMessageKey = MessageKey cfg, EncStacktraceKey = ''stacktrace'',
                 EncodeLevel = LowercaseLevelEncoder\<rparr>)
         (getZapFields cfg)"
proof -
  have eo: "errorOutput (WithOptions log (opts @ [ErrorOutput Stdout])) = Stdout" for log opts
    by (simp add: WithOptions_def)
  have a: "New None cfg opts = New (Some level) cfg opts" for opts
    by (simp add: New_def)
  have b: "errorOutput (New lvl cfg options) = Stdout"
    by (simp add: New_def Let_def Sugar_def Logger_With_def zap_New_def eo)
  have c: "core (New (Some enab) cfg []) =
       ioCore enab
         (if DevMode cfg
          then ConsoleEncoder \<lparr>EncTimeKey = TimeKey cfg, EncLevelKey = LevelKey cfg,
                 EncNameKey = ''logger'', EncCallerKey = ''caller'',
                 EncMessageKey = MessageKey cfg, EncStacktraceKey = ''stacktrace'',
                 EncodeLevel = LowercaseColorLevelEncoder\<rparr>
          else JSONEncoder \<lparr>EncTimeKey = TimeKey cfg, EncLevelKey = LevelKey cfg,
                 EncNameKey = ''logger'', EncCallerKey = ''caller'',
                 EncMessageKey = MessageKey cfg, EncStacktraceKey = ''stacktrace'',
                 EncodeLevel = LowercaseLevelEncoder\<rparr>)
         (getZapFields cfg)" for enab
    by (simp add: New_def Let_def Sugar_def Logger_With_def zap_New_def WithOptions_def
        NewCore_def)
  have d: "Core_Enabled (core (New None cfg [])) l = (0 \<le> sint l)"
    by (simp add: a c level_def Level_Enabled_def sint_levels)
  from a b c d show ?thesis by blast
qed

text \<open>
  Initialization. After \<open>init\<close> the registry holds the handle built from the default
  settings at \<open>info\<close>. \<open>InitLogger\<close> returns the loader's failure as an error and
  leaves the process state alone; when the loader and the parser succeed it stores in
  the registry the handle built at the parsed level from the loaded settings with the
  version replaced by the one it was given, and returns no error.
\<close>

theorem InitLogger_paths:
  "Logger init = Some (New (Some (AtomicLevel InfoLevel)) defaultCfg [])
   \<and> (InitWithPrefix X pfx = Inl err \<longrightarrow>
        InitLogger X w pfx version =
          (w, Some (Sprintf X (''can'' @ [char_of (39::nat)] @ ''t get log config; err: %w'')
                      [AError err])))
   \<and> (InitWithPrefix X pfx = Inr c \<and> UnmarshalText X (LogLevel c) = Inr lvl \<longrightarrow>
        InitLogger X w pfx version =
          (SetLogger w (Some (New (Some (AtomicLevel lvl)) (c\<lparr>Version := version\<rparr>) [])), None))"
  by (simp add: InitLogger_def zapLevelFromString_def Logger_def init_fields level_def)

theorem InitLogger_paths_witness:
  "InitWithPrefix (stock\<lparr>InitWithPrefix := \<lambda>pfx. Inl ''missing variable''\<rparr>) ''APP''
     = Inl ''missing variable''
   \<and> InitLogger (stock\<lparr>InitWithPrefix := \<lambda>pfx. Inl ''missing variable''\<rparr>) init ''APP'' ''2.0.1''
     = (init, Some (Sprintf (stock\<lparr>InitWithPrefix := \<lambda>pfx. Inl ''missing variable''\<rparr>)
                      (''can'' @ [char_of (39::nat)] @ ''t get log config; err: %w'')
                      [AError ''missing variable'']))
   \<and> InitWithPrefix stock ''APP'' = Inr defaultCfg
   \<and> UnmarshalText stock (LogLevel defaultCfg) = Inr InfoLevel
   \<and> InitLogger stock init ''APP'' ''2.0.1''
     = (SetLogger init
          (Some (New (Some (AtomicLevel InfoLevel)) (defaultCfg\<lparr>Version := ''2.0.1''\<rparr>) [])),
        None)"
proof -
  let ?X = "stock\<lparr>InitWithPrefix := \<lambda>pfx. Inl ''missing variable''\<rparr>"
  have h1: "InitWithPrefix ?X ''APP'' = Inl ''missing variable''" by simp
  have h2: "InitWithPrefix stock ''APP'' = Inr defaultCfg" by (simp add: stock_def)
  have h3: "UnmarshalText stock (LogLevel defaultCfg) = Inr InfoLevel"
    by (simp add: stock_def defaultCfg_def zap_UnmarshalText_def level_of_token_def)
  note a = InitLogger_paths [where X = ?X and pfx = "''APP''" and err = "''missing variable''"
      and w = init and version = "''2.0.1''"]
  note b = InitLogger_paths [where X = stock and pfx = "''APP''" and c = defaultCfg
      and lvl = InfoLevel and w = init and version = "''2.0.1''"]
  from a h1 have r1: "InitLogger ?X init ''APP'' ''2.0.1''
     = (init, Some (Sprintf ?X (''can'' @ [char_of (39::nat)] @ ''t get log config; err: %w'')
                      [AError ''missing variable'']))"
    by blast
  from b h2 h3 have r2: "InitLogger stock init ''APP'' ''2.0.1''
     = (SetLogger init
          (Some (New (Some (AtomicLevel InfoLevel)) (defaultCfg\<lparr>Version := ''2.0.1''\<rparr>) [])),
        None)"
    by blast
  from h1 h2 h3 r1 r2 show ?thesis by blast
qed

end
